theory Spec2Isabelle
  imports Main
begin

section \<open>Secure download tokens (src/utils/secureDownloads.ts)\<close>

text \<open>
  The module talks to a remote datastore through a client object. Every request to the
  datastore is one atomic statement; the module's functions are sequences of such
  requests with pure computation in between. The embedding keeps that shape: a function
  of the module is a process (\<open>proc\<close>) that awaits datastore calls one after another,
  the datastore is an explicit state, and a process is either run alone from start to
  end (\<open>run\<close>) or interleaved with other processes request by request (\<open>interleave\<close>).

  Timestamps (ISO strings in the source, compared as dates) are integers, the number of
  milliseconds since the epoch. Console output is not modelled.
\<close>

subsection \<open>Strings\<close>

text \<open>
  A JavaScript string is a sequence of UTF-16 code units, numbers below 65536. \<open>js\<close>
  writes one from a literal.
\<close>

type_synonym jsstring = "nat list"

definition js :: "string \<Rightarrow> jsstring" where
  "js s = map of_char s"

text \<open>
  The white space of \<open>String.prototype.trim\<close> and of \<open>\s\<close> in a regular expression: the
  code units of the productions WhiteSpace and LineTerminator of ECMAScript, that is tab,
  line feed, vertical tab, form feed, carriage return, space, no-break space, U+1680,
  U+2000 to U+200A, U+2028, U+2029, U+202F, U+205F, U+3000 and U+FEFF.
\<close>

definition is_space :: "nat \<Rightarrow> bool" where
  "is_space c =
     (c \<in> set [0x09, 0x0A, 0x0B, 0x0C, 0x0D, 0x20, 0xA0, 0x1680, 0x2028, 0x2029, 0x202F, 0x205F,
                0x3000, 0xFEFF]
      \<or> (0x2000 \<le> c \<and> c \<le> 0x200A))"

definition trim :: "jsstring \<Rightarrow> jsstring" where
  "trim s = rev (dropWhile is_space (rev (dropWhile is_space s)))"

text \<open>
  \<open>String.prototype.toLowerCase\<close> works from the case tables of Unicode, which are no
  part of the module. Every function below that calls it takes it as its first argument,
  \<open>toLowerCase\<close>, and what is proved holds for any function in its place.
\<close>

subsection \<open>Data model\<close>

text \<open>
  \<open>SecureDownloadToken\<close> (the field \<open>id\<close> is \<open>row_id\<close> here), the row of
  \<open>project_documents\<close> that the select joins in, and the joined row that
  \<open>verifyDownloadToken\<close> calls \<open>tokenData\<close>.
\<close>

record token_row =
  row_id :: jsstring
  token :: jsstring
  document_id :: jsstring
  recipient_email :: jsstring
  order_id :: jsstring
  expires_at :: int
  max_downloads :: int
  download_count :: int
  is_active :: bool
  created_at :: int
  updated_at :: int

record document =
  doc_id :: jsstring
  name :: jsstring
  url :: jsstring

record joined_row = token_row +
  project_documents :: "document option"

text \<open>The payload that \<open>logDownloadAttempt\<close> inserts into \<open>download_attempts\<close>.\<close>

record attempt =
  token_id :: "jsstring option"
  attempted_email :: jsstring
  ip_address :: "jsstring option"
  user_agent :: "jsstring option"
  success :: bool
  failure_reason :: "jsstring option"
  attempted_at :: int

record database =
  secure_download_tokens :: "token_row list"
  download_attempts :: "attempt list"
  documents_table :: "document list"

subsection \<open>The datastore\<close>

text \<open>
  The object a \<open>.update(...)\<close> call carries: the columns it sets. The source has two:
  \<open>{is_active: false, updated_at}\<close> and \<open>{download_count: n, updated_at}\<close>.
\<close>

record patch =
  set_is_active :: "bool option"
  set_download_count :: "int option"
  set_updated_at :: "int option"

datatype dbcall =
    SelectActiveToken jsstring
  | InsertAttempt attempt
  | UpdateToken jsstring patch
  | InsertToken token_row

text \<open>
  What awaiting a call gives: the pair \<open>{data, error}\<close> (\<open>error\<close> is true when the
  client reports one), or a rejected promise, which \<open>await\<close> turns into an exception.
\<close>

datatype response = Resolved "joined_row option" bool | Rejected

text \<open>
  How one call ends is up to the datastore and the network: it is carried out
  (\<open>Healthy\<close>), answered with an error and no effect (\<open>ReportsError\<close>), or the promise is
  rejected (\<open>Raises\<close>).
\<close>

datatype fault = Healthy | ReportsError | Raises

definition join :: "database \<Rightarrow> token_row \<Rightarrow> joined_row" where
  "join db r =
     token_row.extend r
       (joined_row.fields (find (\<lambda>d. doc_id d = document_id r) (documents_table db)))"

definition apply_patch :: "patch \<Rightarrow> token_row \<Rightarrow> token_row" where
  "apply_patch p r =
     (let r1 = (case set_is_active p of None \<Rightarrow> r | Some b \<Rightarrow> r\<lparr>is_active := b\<rparr>);
          r2 = (case set_download_count p of None \<Rightarrow> r1 | Some n \<Rightarrow> r1\<lparr>download_count := n\<rparr>)
      in (case set_updated_at p of None \<Rightarrow> r2 | Some t \<Rightarrow> r2\<lparr>updated_at := t\<rparr>))"

text \<open>
  Modelled from the spec: the datastore itself, an external collaborator of which the
  repository holds only the client calls. Section 6 of the specification lists its
  operations: select a token by \<open>token\<close> and \<open>is_active = true\<close> joined with its document
  (\<open>.single()\<close> reports an error unless exactly one row matches), append a download
  attempt, update token rows by id, insert a token under a unique constraint on \<open>token\<close>.
\<close>

fun exec :: "dbcall \<Rightarrow> fault \<Rightarrow> database \<Rightarrow> response \<times> database" where
  "exec c Raises db = (Rejected, db)"
| "exec c ReportsError db = (Resolved None True, db)"
| "exec (SelectActiveToken tok) Healthy db =
     (case filter (\<lambda>r. token r = tok \<and> is_active r) (secure_download_tokens db) of
        [r] \<Rightarrow> (Resolved (Some (join db r)) False, db)
      | _ \<Rightarrow> (Resolved None True, db))"
| "exec (InsertAttempt a) Healthy db =
     (Resolved None False, db\<lparr>download_attempts := download_attempts db @ [a]\<rparr>)"
| "exec (UpdateToken i p) Healthy db =
     (Resolved None False,
      db\<lparr>secure_download_tokens :=
           map (\<lambda>r. if row_id r = i then apply_patch p r else r) (secure_download_tokens db)\<rparr>)"
| "exec (InsertToken r) Healthy db =
     (if token r \<in> set (map token (secure_download_tokens db)) then (Resolved None True, db)
      else (Resolved (Some (join db r)) False,
            db\<lparr>secure_download_tokens := secure_download_tokens db @ [r]\<rparr>))"

subsection \<open>Processes\<close>

text \<open>
  An async function of the module: it has returned (\<open>Done\<close>), or it awaits a datastore
  call and continues with the response.
\<close>

datatype 'r proc = Done 'r | Await dbcall "response \<Rightarrow> 'r proc"

text \<open>One caller, nobody else: the calls run back to back. \<open>env\<close> says how each call ends.\<close>

primrec run :: "(dbcall \<Rightarrow> fault) \<Rightarrow> 'r proc \<Rightarrow> database \<Rightarrow> 'r \<times> database" where
  "run env (Done r) db = (r, db)"
| "run env (Await c k) db = (case exec c (env c) db of (rsp, db') \<Rightarrow> run env (k rsp) db')"

text \<open>
  Several callers at once: the datastore serialises the calls, in any order. An event
  \<open>(i, f)\<close> lets process \<open>i\<close> make its next call, which ends as \<open>f\<close> says.
\<close>

fun step :: "nat \<times> fault \<Rightarrow> database \<times> 'r proc list \<Rightarrow> database \<times> 'r proc list" where
  "step (i, f) (db, ps) =
     (if i < length ps then
        (case ps ! i of
           Done r \<Rightarrow> (db, ps)
         | Await c k \<Rightarrow> (case exec c f db of (rsp, db') \<Rightarrow> (db', ps[i := k rsp])))
      else (db, ps))"

fun interleave :: "(nat \<times> fault) list \<Rightarrow> database \<times> 'r proc list \<Rightarrow> database \<times> 'r proc list" where
  "interleave [] s = s"
| "interleave (e # es) s = interleave es (step e s)"

subsection \<open>\<open>logDownloadAttempt\<close>\<close>

text \<open>
  Lines 313-342. The insert is inside \<open>try\<close>/\<open>catch\<close>; a reported error and a caught
  exception are written to the console and nothing else happens, so all three ways the
  insert can end lead to the caller's continuation \<open>k\<close>. The email is normalised again
  here (line 326).
\<close>

definition logDownloadAttempt ::
  "(jsstring \<Rightarrow> jsstring) \<Rightarrow> jsstring option \<Rightarrow> jsstring \<Rightarrow> bool \<Rightarrow> jsstring option \<Rightarrow>
   jsstring option \<Rightarrow> jsstring option \<Rightarrow> int \<Rightarrow> 'r proc \<Rightarrow> 'r proc" where
  "logDownloadAttempt toLowerCase tokenId attemptedEmail succ failureReason ipAddress userAgent now k =
     Await (InsertAttempt
              \<lparr>token_id = tokenId,
               attempted_email = trim (toLowerCase attemptedEmail),
               ip_address = ipAddress,
               user_agent = userAgent,
               success = succ,
               failure_reason = failureReason,
               attempted_at = now\<rparr>)
       (\<lambda>rsp. case rsp of
                 Rejected \<Rightarrow> k
               | Resolved d err \<Rightarrow> (if err then k else k))"

subsection \<open>\<open>verifyDownloadToken\<close>\<close>

text \<open>
  The \<open>reason\<close> texts of the result, one constructor per template of the source, with the
  value the template interpolates: the expiry date, the stored recipient email, the
  download limit.
\<close>

datatype message =
    InvalidLink
  | ExpiredOn int
  | AuthorizedOnlyFor jsstring
  | LimitReached int
  | DocumentUnavailable
  | SystemError

record verify_result =
  valid :: bool
  document :: "document option"
  reason :: "message option"
  tokenData :: "joined_row option"

text \<open>
  Lines 173-308. \<open>now\<close> is the clock of the call. The \<open>catch\<close> block (lines 303-307) is
  where every rejected call of the \<open>try\<close> block continues.
\<close>

definition verifyDownloadToken ::
  "(jsstring \<Rightarrow> jsstring) \<Rightarrow> jsstring \<Rightarrow> jsstring \<Rightarrow> jsstring option \<Rightarrow> jsstring option \<Rightarrow> int \<Rightarrow>
   verify_result proc" where
  "verifyDownloadToken toLowerCase tok attemptedEmail ipAddress userAgent now =
    (let normalizedAttemptedEmail = trim (toLowerCase attemptedEmail);
         catch =
           logDownloadAttempt toLowerCase None (trim (toLowerCase attemptedEmail)) False
             (Some (js ''System error'')) ipAddress userAgent now
             (Done \<lparr>valid = False, document = None, reason = Some SystemError, tokenData = None\<rparr>)
     in
     Await (SelectActiveToken tok) (\<lambda>rsp.
       case rsp of
         Rejected \<Rightarrow> catch
       | Resolved data tokenError \<Rightarrow>
          (case (if tokenError then None else data) of
             None \<Rightarrow>
               logDownloadAttempt toLowerCase None normalizedAttemptedEmail False
                 (Some (js ''Invalid or expired token'')) ipAddress userAgent now
                 (Done \<lparr>valid = False, document = None, reason = Some InvalidLink,
                        tokenData = None\<rparr>)
           | Some t \<Rightarrow>
               if now > expires_at t then
                 logDownloadAttempt toLowerCase (Some (row_id t)) normalizedAttemptedEmail False
                   (Some (js ''Token expired'')) ipAddress userAgent now
                   (Await (UpdateToken (row_id t)
                             \<lparr>set_is_active = Some False, set_download_count = None,
                              set_updated_at = Some now\<rparr>)
                      (\<lambda>rsp. case rsp of
                         Rejected \<Rightarrow> catch
                       | Resolved d e \<Rightarrow>
                           Done \<lparr>valid = False, document = None,
                                 reason = Some (ExpiredOn (expires_at t)), tokenData = Some t\<rparr>))
               else if trim (toLowerCase (recipient_email t)) \<noteq> normalizedAttemptedEmail then
                 logDownloadAttempt toLowerCase (Some (row_id t)) normalizedAttemptedEmail False
                   (Some (js ''Email mismatch'')) ipAddress userAgent now
                   (Done \<lparr>valid = False, document = None,
                          reason = Some (AuthorizedOnlyFor (recipient_email t)),
                          tokenData = Some t\<rparr>)
               else if download_count t \<ge> max_downloads t then
                 logDownloadAttempt toLowerCase (Some (row_id t)) normalizedAttemptedEmail False
                   (Some (js ''Download limit exceeded'')) ipAddress userAgent now
                   (Done \<lparr>valid = False, document = None,
                          reason = Some (LimitReached (max_downloads t)), tokenData = Some t\<rparr>)
               else if project_documents t = None then
                 logDownloadAttempt toLowerCase (Some (row_id t)) normalizedAttemptedEmail False
                   (Some (js ''Document not found'')) ipAddress userAgent now
                   (Done \<lparr>valid = False, document = None, reason = Some DocumentUnavailable,
                          tokenData = Some t\<rparr>)
               else
                 logDownloadAttempt toLowerCase (Some (row_id t)) normalizedAttemptedEmail True None
                   ipAddress userAgent now
                   (Await (UpdateToken (row_id t)
                             \<lparr>set_is_active = None,
                              set_download_count = Some (download_count t + 1),
                              set_updated_at = Some now\<rparr>)
                      (\<lambda>rsp. case rsp of
                         Rejected \<Rightarrow> catch
                       | Resolved d updateError \<Rightarrow>
                           Done \<lparr>valid = True, document = project_documents t, reason = None,
                                 tokenData = Some t\<rparr>)))))"

subsection \<open>\<open>revokeDownloadToken\<close>\<close>

text \<open>Lines 389-404: one update by id; \<open>!error\<close> is returned, a caught exception gives \<open>false\<close>.\<close>

definition revokeDownloadToken :: "jsstring \<Rightarrow> int \<Rightarrow> bool proc" where
  "revokeDownloadToken tokenId now =
     Await (UpdateToken tokenId
              \<lparr>set_is_active = Some False, set_download_count = None, set_updated_at = Some now\<rparr>)
       (\<lambda>rsp. case rsp of
                 Rejected \<Rightarrow> Done False
               | Resolved d err \<Rightarrow> Done (\<not> err))"

subsection \<open>\<open>validateEmail\<close>\<close>

text \<open>
  The regular expression of line 382, \<open>/^[^\s@]+@[^\s@]+\.[^\s@]+$/\<close>, is a sequence of
  five items, each a class of code units taken once or one or more times (the expression
  has no \<open>u\<close> flag, so it matches code unit by code unit). \<open>regex_test\<close> is the matcher
  for such a sequence anchored at both ends, with the backtracking of \<open>+\<close>.
\<close>

datatype char_class = NotSpaceOrAt | Literal nat

datatype quantifier = Once | OneOrMore

definition at_sign :: nat where
  "at_sign = 0x40"

definition full_stop :: nat where
  "full_stop = 0x2E"

fun in_class :: "char_class \<Rightarrow> nat \<Rightarrow> bool" where
  "in_class NotSpaceOrAt c = (\<not> is_space c \<and> c \<noteq> at_sign)"
| "in_class (Literal l) c = (c = l)"

fun regex_test :: "(char_class \<times> quantifier) list \<Rightarrow> jsstring \<Rightarrow> bool" where
  "regex_test [] s = (s = [])"
| "regex_test ((cl, q) # items) [] = False"
| "regex_test ((cl, Once) # items) (c # cs) = (in_class cl c \<and> regex_test items cs)"
| "regex_test ((cl, OneOrMore) # items) (c # cs) =
     (in_class cl c \<and> (regex_test ((cl, OneOrMore) # items) cs \<or> regex_test items cs))"

definition emailRegex :: "(char_class \<times> quantifier) list" where
  "emailRegex =
     [(NotSpaceOrAt, OneOrMore), (Literal at_sign, Once), (NotSpaceOrAt, OneOrMore),
      (Literal full_stop, Once), (NotSpaceOrAt, OneOrMore)]"

definition validateEmail :: "jsstring \<Rightarrow> bool" where
  "validateEmail email = regex_test emailRegex (trim email)"

subsection \<open>\<open>generateSecureDownloadTokens\<close>\<close>

text \<open>
  \<open>SecureDownloadConfig\<close> after the spread \<open>{...DEFAULT_CONFIG, ...config}\<close>: a key of
  \<open>config\<close> may be missing, or there with the value \<open>undefined\<close>, or there with a value,
  and a key that is there wins over the default also when its value is \<open>undefined\<close>. So
  a field of the merged configuration may be \<open>undefined\<close> (\<open>None\<close>); a number that is
  \<open>NaN\<close> behaves as \<open>undefined\<close> does in what follows.
\<close>

datatype 'a key = Missing | Undefined | Given 'a

record partial_config =
  expirationHours_key :: "int key"
  maxDownloads_key :: "int key"
  requireEmailVerification_key :: "bool key"

record secure_download_config =
  expirationHours :: "int option"
  maxDownloads :: "int option"
  requireEmailVerification :: "bool option"

definition DEFAULT_CONFIG :: secure_download_config where
  "DEFAULT_CONFIG =
     \<lparr>expirationHours = Some 72, maxDownloads = Some 5, requireEmailVerification = Some True\<rparr>"

fun spread :: "'a option \<Rightarrow> 'a key \<Rightarrow> 'a option" where
  "spread d Missing = d"
| "spread d Undefined = None"
| "spread d (Given v) = Some v"

definition merge_config :: "secure_download_config \<Rightarrow> partial_config \<Rightarrow> secure_download_config" where
  "merge_config d c =
     \<lparr>expirationHours = spread (expirationHours d) (expirationHours_key c),
      maxDownloads = spread (maxDownloads d) (maxDownloads_key c),
      requireEmailVerification =
        spread (requireEmailVerification d) (requireEmailVerification_key c)\<rparr>"

text \<open>
  Lines 161-168. \<open>rnd i\<close> is the \<open>i\<close>-th value of
  \<open>Math.floor(Math.random() * characters.length)\<close>, a number below 62.
\<close>

definition characters :: jsstring where
  "characters = js ''ABCDEFGHIJKLMNOPQRSTUVWXYZabcdefghijklmnopqrstuvwxyz0123456789''"

definition generateClientSideToken :: "(nat \<Rightarrow> nat) \<Rightarrow> jsstring" where
  "generateClientSideToken rnd = map (\<lambda>i. characters ! (rnd i mod 62)) [0..<32]"

text \<open>
  \<open>encodeURIComponent\<close>. The string is read as code points: a high surrogate followed by
  a low one is one code point, and a surrogate that stands alone makes the function throw
  URIError (\<open>None\<close>). The unreserved characters stay; every other code point becomes the
  bytes of its UTF-8 form, each written \<open>%XX\<close>.
\<close>

definition high_surrogate :: "nat \<Rightarrow> bool" where
  "high_surrogate c = (0xD800 \<le> c \<and> c \<le> 0xDBFF)"

definition low_surrogate :: "nat \<Rightarrow> bool" where
  "low_surrogate c = (0xDC00 \<le> c \<and> c \<le> 0xDFFF)"

fun code_points :: "jsstring \<Rightarrow> nat list option" where
  "code_points [] = Some []"
| "code_points [c] = (if high_surrogate c \<or> low_surrogate c then None else Some [c])"
| "code_points (c # d # ds) =
     (if high_surrogate c then
        (if low_surrogate d
         then map_option (\<lambda>ps. (0x10000 + (c - 0xD800) * 0x400 + (d - 0xDC00)) # ps) (code_points ds)
         else None)
      else if low_surrogate c then None
      else map_option (\<lambda>ps. c # ps) (code_points (d # ds)))"

definition utf8 :: "nat \<Rightarrow> nat list" where
  "utf8 p =
     (if p < 0x80 then [p]
      else if p < 0x800 then [0xC0 + p div 0x40, 0x80 + p mod 0x40]
      else if p < 0x10000 then [0xE0 + p div 0x1000, 0x80 + p div 0x40 mod 0x40, 0x80 + p mod 0x40]
      else [0xF0 + p div 0x40000, 0x80 + p div 0x1000 mod 0x40, 0x80 + p div 0x40 mod 0x40,
            0x80 + p mod 0x40])"

definition unreserved :: "nat \<Rightarrow> bool" where
  "unreserved p = (p \<in> set (characters @ js ''-_.!~*()'' @ [0x27]))"

definition hex_digit :: "nat \<Rightarrow> nat" where
  "hex_digit n = js ''0123456789ABCDEF'' ! (n mod 16)"

definition percent :: "nat \<Rightarrow> jsstring" where
  "percent b = [0x25, hex_digit (b div 16), hex_digit b]"

definition encodeURIComponent :: "jsstring \<Rightarrow> jsstring option" where
  "encodeURIComponent s =
     map_option
       (\<lambda>ps. concat (map (\<lambda>p. if unreserved p then [p] else concat (map percent (utf8 p))) ps))
       (code_points s)"

record secure_url =
  documentId :: jsstring
  documentName :: jsstring
  secureUrl :: jsstring
  expiresAt :: int

text \<open>
  What the surroundings decide for one document of the loop: the answer of the
  \<open>generate_secure_token\<close> procedure of the datastore, the random numbers of the
  fallback, the id the datastore assigns to the new row, the value it gives the column
  \<open>max_downloads\<close> when the payload has none, and how the insert ends.
\<close>

datatype rpc_response = RpcData jsstring | RpcError | RpcRejected

record gen_env =
  rpc :: rpc_response
  random :: "nat \<Rightarrow> nat"
  new_id :: jsstring
  default_max_downloads :: int
  store_fault :: fault

datatype 'a completion = Returned 'a | Thrown

text \<open>
  Lines 82-113 and, word for word the same, lines 118-148. \<open>expiresAtDate\<close> is the date
  \<open>expiresAt\<close> of line 62, \<open>None\<close> when it is an invalid date; \<open>origin\<close> is \<open>window.location.origin\<close>,
  \<open>None\<close> where reading it throws. In the order of the source: the payload of the insert
  is built, where \<open>expiresAt.toISOString()\<close> throws RangeError on an invalid date; the
  row is inserted; on success the link is built, where reading the origin and
  \<open>encodeURIComponent\<close> can throw, with the row already stored. \<open>Returned None\<close> is the
  \<open>continue\<close> after a reported error, \<open>Thrown\<close> an exception on its way to the \<open>catch\<close> of
  line 150.
\<close>

definition store_and_link ::
  "(jsstring \<Rightarrow> jsstring) \<Rightarrow> jsstring option \<Rightarrow> jsstring \<Rightarrow> document \<Rightarrow> jsstring \<Rightarrow> jsstring \<Rightarrow>
   int option \<Rightarrow> secure_download_config \<Rightarrow> int \<Rightarrow> gen_env \<Rightarrow> database \<Rightarrow>
   secure_url option completion \<times> database" where
  "store_and_link toLowerCase origin tok doc recipientEmail orderId expiresAtDate finalConfig now env db =
     (case expiresAtDate of
        None \<Rightarrow> (Thrown, db)
      | Some expires \<Rightarrow>
          (case exec (InsertToken
                        \<lparr>row_id = new_id env,
                         token = tok,
                         document_id = doc_id doc,
                         recipient_email = trim (toLowerCase recipientEmail),
                         order_id = orderId,
                         expires_at = expires,
                         max_downloads =
                           (case maxDownloads finalConfig of
                              Some m \<Rightarrow> m
                            | None \<Rightarrow> default_max_downloads env),
                         download_count = 0,
                         is_active = True,
                         created_at = now,
                         updated_at = now\<rparr>) (store_fault env) db of
             (Rejected, db') \<Rightarrow> (Thrown, db')
           | (Resolved storedToken storeError, db') \<Rightarrow>
               if storeError then (Returned None, db')
               else
                 (case origin of
                    None \<Rightarrow> (Thrown, db')
                  | Some baseUrl \<Rightarrow>
                      (case encodeURIComponent recipientEmail of
                         None \<Rightarrow> (Thrown, db')
                       | Some encoded \<Rightarrow>
                           (Returned (Some
                              \<lparr>documentId = doc_id doc,
                               documentName = name doc,
                               secureUrl = baseUrl @ js ''/secure-download/'' @ tok
                                             @ js ''?email='' @ encoded,
                               expiresAt = expires\<rparr>), db')))))"

text \<open>The body of the \<open>try\<close> block, lines 73-148.\<close>

definition generate_for_document ::
  "(jsstring \<Rightarrow> jsstring) \<Rightarrow> jsstring option \<Rightarrow> document \<Rightarrow> jsstring \<Rightarrow> jsstring \<Rightarrow> int option \<Rightarrow>
   secure_download_config \<Rightarrow> int \<Rightarrow> gen_env \<Rightarrow> database \<Rightarrow>
   secure_url option completion \<times> database" where
  "generate_for_document toLowerCase origin doc recipientEmail orderId expiresAtDate finalConfig now env db =
     (case rpc env of
        RpcRejected \<Rightarrow> (Thrown, db)
      | RpcError \<Rightarrow>
          store_and_link toLowerCase origin (generateClientSideToken (random env)) doc
            recipientEmail orderId expiresAtDate finalConfig now env db
      | RpcData tok \<Rightarrow>
          store_and_link toLowerCase origin tok doc recipientEmail orderId expiresAtDate finalConfig
            now env db)"

text \<open>
  The \<open>for\<close> loop of lines 71-153 from its \<open>i\<close>-th round on; \<open>envs i\<close> belongs to that
  round. \<open>secureUrls\<close> grows only when a round ends with a link; a round that throws is
  caught (line 150) and the loop goes on.
\<close>

fun generate_loop ::
  "(jsstring \<Rightarrow> jsstring) \<Rightarrow> jsstring option \<Rightarrow> jsstring \<Rightarrow> jsstring \<Rightarrow> int option \<Rightarrow>
   secure_download_config \<Rightarrow> int \<Rightarrow> (nat \<Rightarrow> gen_env) \<Rightarrow> nat \<Rightarrow> document list \<Rightarrow> secure_url list \<Rightarrow>
   database \<Rightarrow> secure_url list \<times> database" where
  "generate_loop toLowerCase origin recipientEmail orderId expiresAtDate finalConfig now envs i []
     secureUrls db = (secureUrls, db)"
| "generate_loop toLowerCase origin recipientEmail orderId expiresAtDate finalConfig now envs i
     (doc # docs) secureUrls db =
     (case generate_for_document toLowerCase origin doc recipientEmail orderId expiresAtDate finalConfig
             now (envs i) db of
        (Returned (Some u), db') \<Rightarrow>
          generate_loop toLowerCase origin recipientEmail orderId expiresAtDate finalConfig now envs
            (Suc i) docs (secureUrls @ [u]) db'
      | (Returned None, db') \<Rightarrow>
          generate_loop toLowerCase origin recipientEmail orderId expiresAtDate finalConfig now envs
            (Suc i) docs secureUrls db'
      | (Thrown, db') \<Rightarrow>
          generate_loop toLowerCase origin recipientEmail orderId expiresAtDate finalConfig now envs
            (Suc i) docs secureUrls db')"

text \<open>
  Lines 45-156. \<open>now\<close> is the clock, the date \<open>new Date()\<close> of line 61. \<open>setHours\<close> stands
  for the arithmetic of the built-in \<open>Date\<close> in line 62: \<open>setHours now h\<close> is the date
  after \<open>expiresAt.setHours(expiresAt.getHours() + h)\<close>, which depends on the local time
  zone and is an invalid date (\<open>None\<close>) when \<open>h\<close> is \<open>undefined\<close> or the result is out of
  the range of dates. Lines 61-62 are outside the \<open>try\<close> and do not throw.
\<close>

definition generateSecureDownloadTokens ::
  "(jsstring \<Rightarrow> jsstring) \<Rightarrow> (int \<Rightarrow> int option \<Rightarrow> int option) \<Rightarrow> jsstring option \<Rightarrow> int \<Rightarrow>
   (nat \<Rightarrow> gen_env) \<Rightarrow> document list \<Rightarrow> jsstring \<Rightarrow> jsstring \<Rightarrow> partial_config \<Rightarrow> database \<Rightarrow>
   secure_url list \<times> database" where
  "generateSecureDownloadTokens toLowerCase setHours origin now envs documents recipientEmail
     orderId config db =
     (let finalConfig = merge_config DEFAULT_CONFIG config;
          expiresAtDate = setHours now (expirationHours finalConfig)
      in generate_loop toLowerCase origin recipientEmail orderId expiresAtDate finalConfig now envs 0
           documents [] db)"

section \<open>Vocabulary of the properties\<close>

subsection \<open>Lower case on ASCII\<close>

text \<open>
  What \<open>toLowerCase\<close> does to a string of ASCII code units: the letters \<open>A\<close> to \<open>Z\<close>
  become \<open>a\<close> to \<open>z\<close>, every other code unit stays. A function in the place of
  \<open>toLowerCase\<close> is faithful on ASCII when it does this to every such string; the
  built-in is. \<open>ascii_toLowerCase\<close> does it at every position of any string; it stands
  in for the built-in in the examples, whose strings have no letter outside ASCII.
\<close>

definition lower_ascii :: "nat \<Rightarrow> nat" where
  "lower_ascii c = (if 0x41 \<le> c \<and> c \<le> 0x5A then c + 0x20 else c)"

definition ascii_toLowerCase :: "jsstring \<Rightarrow> jsstring" where
  "ascii_toLowerCase s = map lower_ascii s"

definition ascii :: "jsstring \<Rightarrow> bool" where
  "ascii s = list_all (\<lambda>c. c < 0x80) s"

definition faithful_on_ascii :: "(jsstring \<Rightarrow> jsstring) \<Rightarrow> bool" where
  "faithful_on_ascii toLowerCase = (\<forall>s. ascii s \<longrightarrow> toLowerCase s = map lower_ascii s)"

text \<open>A string that neither begins nor ends with white space.\<close>

definition trimmed :: "jsstring \<Rightarrow> bool" where
  "trimmed s = (s = [] \<or> (\<not> is_space (hd s) \<and> \<not> is_space (last s)))"

text \<open>A string of ASCII white space only.\<close>

definition blank :: "jsstring \<Rightarrow> bool" where
  "blank s = list_all (\<lambda>c. is_space c \<and> c < 0x80) s"

subsection \<open>Environments and sample data\<close>

text \<open>The response of a call that returns no data, by the way the call ends.\<close>

definition outcome :: "fault \<Rightarrow> response" where
  "outcome f =
     (case f of Healthy \<Rightarrow> Resolved None False | ReportsError \<Rightarrow> Resolved None True | Raises \<Rightarrow> Rejected)"

definition healthy :: "dbcall \<Rightarrow> fault" where
  "healthy c = Healthy"

text \<open>The datastore answers every update with an error, and carries out everything else.\<close>

definition update_refused :: "dbcall \<Rightarrow> fault" where
  "update_refused c = (case c of UpdateToken i p \<Rightarrow> ReportsError | _ \<Rightarrow> Healthy)"

text \<open>Every update ends in a rejected promise.\<close>

definition update_raises :: "dbcall \<Rightarrow> fault" where
  "update_raises c = (case c of UpdateToken i p \<Rightarrow> Raises | _ \<Rightarrow> Healthy)"

text \<open>The datastore answers every insert of a download attempt with an error.\<close>

definition audit_refused :: "dbcall \<Rightarrow> fault" where
  "audit_refused c = (case c of InsertAttempt a \<Rightarrow> ReportsError | _ \<Rightarrow> Healthy)"

definition sample_doc :: document where
  "sample_doc = \<lparr>doc_id = js ''D1'', name = js ''Report'', url = js ''https://files/D1''\<rparr>"

definition sample_row :: token_row where
  "sample_row =
     \<lparr>row_id = js ''id1'', token = js ''T1'', document_id = js ''D1'',
      recipient_email = js ''User@Example.com'', order_id = js ''O1'', expires_at = 1000,
      max_downloads = 1, download_count = 0, is_active = True, created_at = 0, updated_at = 0\<rparr>"

definition sample_db :: database where
  "sample_db =
     \<lparr>secure_download_tokens = [sample_row], download_attempts = [],
      documents_table = [sample_doc]\<rparr>"

subsection \<open>The verification pipeline in the specification's words\<close>

text \<open>
  The failure taxonomy of the specification, the kind of each \<open>reason\<close> text of the
  result, and the text \<open>verifyDownloadToken\<close> hands to the audit logger for each kind.
\<close>

datatype failure =
  invalid_or_expired | expired | email_mismatch | quota_exceeded | document_missing | system_error

fun failure_of_message :: "message \<Rightarrow> failure" where
  "failure_of_message InvalidLink = invalid_or_expired"
| "failure_of_message (ExpiredOn e) = expired"
| "failure_of_message (AuthorizedOnlyFor m) = email_mismatch"
| "failure_of_message (LimitReached n) = quota_exceeded"
| "failure_of_message DocumentUnavailable = document_missing"
| "failure_of_message SystemError = system_error"

fun audit_text :: "failure \<Rightarrow> jsstring" where
  "audit_text invalid_or_expired = js ''Invalid or expired token''"
| "audit_text expired = js ''Token expired''"
| "audit_text email_mismatch = js ''Email mismatch''"
| "audit_text quota_exceeded = js ''Download limit exceeded''"
| "audit_text document_missing = js ''Document not found''"
| "audit_text system_error = js ''System error''"

text \<open>What the lookup found: the row of a response that carries one and no error.\<close>

fun found :: "response \<Rightarrow> joined_row option" where
  "found (Resolved d e) = (if e then None else d)"
| "found Rejected = None"

text \<open>
  The specification's state machine: lookup, then expiration, email match, quota and
  document existence in this order; the first check that fails is the outcome, and
  \<open>None\<close> means that all of them pass.
\<close>

definition first_failing_check ::
  "(jsstring \<Rightarrow> jsstring) \<Rightarrow> joined_row option \<Rightarrow> jsstring \<Rightarrow> int \<Rightarrow> failure option" where
  "first_failing_check toLowerCase lookup claimed now =
     (case lookup of
        None \<Rightarrow> Some invalid_or_expired
      | Some t \<Rightarrow>
          map_option fst
            (find snd
               [(expired, now > expires_at t),
                (email_mismatch, trim (toLowerCase claimed) \<noteq> trim (toLowerCase (recipient_email t))),
                (quota_exceeded, download_count t \<ge> max_downloads t),
                (document_missing, project_documents t = None)]))"

text \<open>The datastore after the insert of \<open>logDownloadAttempt\<close>, and after an update by id.\<close>

definition audit :: "(dbcall \<Rightarrow> fault) \<Rightarrow> attempt \<Rightarrow> database \<Rightarrow> database" where
  "audit env a db = snd (exec (InsertAttempt a) (env (InsertAttempt a)) db)"

definition updated :: "(dbcall \<Rightarrow> fault) \<Rightarrow> jsstring \<Rightarrow> patch \<Rightarrow> database \<Rightarrow> database" where
  "updated env i p db = snd (exec (UpdateToken i p) (env (UpdateToken i p)) db)"

text \<open>
  The record \<open>verifyDownloadToken\<close> has logged for an outcome (\<open>None\<close> is success); the
  email goes through the normalisation twice, once in each function.
\<close>

definition entry ::
  "(jsstring \<Rightarrow> jsstring) \<Rightarrow> jsstring option \<Rightarrow> jsstring \<Rightarrow> jsstring option \<Rightarrow> jsstring option \<Rightarrow>
   int \<Rightarrow> failure option \<Rightarrow> attempt" where
  "entry toLowerCase tokenId em ip ua now fl =
     \<lparr>token_id = tokenId, attempted_email = trim (toLowerCase (trim (toLowerCase em))),
      ip_address = ip, user_agent = ua, success = (fl = None),
      failure_reason = map_option audit_text fl, attempted_at = now\<rparr>"

text \<open>The result object of a failure, and the two update objects of \<open>verifyDownloadToken\<close>.\<close>

definition failed :: "message \<Rightarrow> joined_row option \<Rightarrow> verify_result" where
  "failed m t = \<lparr>valid = False, document = None, reason = Some m, tokenData = t\<rparr>"

definition deactivation :: "int \<Rightarrow> patch" where
  "deactivation now = \<lparr>set_is_active = Some False, set_download_count = None, set_updated_at = Some now\<rparr>"

definition increment :: "joined_row \<Rightarrow> int \<Rightarrow> patch" where
  "increment t now = \<lparr>set_is_active = None, set_download_count = Some (download_count t + 1), set_updated_at = Some now\<rparr>"

text \<open>
  The outcome the specification expects of a call whose lookup was answered with
  \<open>lookup\<close>: \<open>system_error\<close> when the lookup itself raised, else the first failing check.
\<close>

definition expected_outcome ::
  "(jsstring \<Rightarrow> jsstring) \<Rightarrow> response \<Rightarrow> jsstring \<Rightarrow> int \<Rightarrow> failure option" where
  "expected_outcome toLowerCase lookup claimed now =
     (if lookup = Rejected then Some system_error
      else first_failing_check toLowerCase (found lookup) claimed now)"

subsection \<open>The quota invariant under interleaving\<close>

definition quota_invariant :: "database \<Rightarrow> bool" where
  "quota_invariant db =
     list_all (\<lambda>r. 0 \<le> download_count r \<and> download_count r \<le> max_downloads r)
       (secure_download_tokens db)"

record verify_request =
  req_token :: jsstring
  req_email :: jsstring
  req_ip :: "jsstring option"
  req_user_agent :: "jsstring option"
  req_now :: int

definition verification :: "(jsstring \<Rightarrow> jsstring) \<Rightarrow> verify_request \<Rightarrow> verify_result proc" where
  "verification toLowerCase q =
     verifyDownloadToken toLowerCase (req_token q) (req_email q) (req_ip q) (req_user_agent q)
       (req_now q)"

text \<open>
  For the proof: \<open>M\<close> lists the id and the limit of every token row. A call is harmless
  when the count it writes is within the limit of the rows it reaches; a process is
  harmless when every call it can still make is, whatever rows its selects return among
  those of \<open>M\<close>.
\<close>

definition limits :: "database \<Rightarrow> (jsstring \<times> int) list" where
  "limits db = map (\<lambda>r. (row_id r, max_downloads r)) (secure_download_tokens db)"

fun call_safe :: "(jsstring \<times> int) list \<Rightarrow> dbcall \<Rightarrow> bool" where
  "call_safe M (UpdateToken i p) =
     (case set_download_count p of
        None \<Rightarrow> True
      | Some n \<Rightarrow> 0 \<le> n \<and> (\<forall>m. (i, m) \<in> set M \<longrightarrow> n \<le> m))"
| "call_safe M (InsertToken r) = False"
| "call_safe M c = True"

fun response_possible :: "(jsstring \<times> int) list \<Rightarrow> dbcall \<Rightarrow> response \<Rightarrow> bool" where
  "response_possible M (SelectActiveToken tok) (Resolved (Some t) e) =
     ((row_id t, max_downloads t) \<in> set M \<and> 0 \<le> download_count t)"
| "response_possible M c rsp = True"

primrec safe :: "(jsstring \<times> int) list \<Rightarrow> 'r proc \<Rightarrow> bool" where
  "safe M (Done r) = True"
| "safe M (Await c k) = (call_safe M c \<and> (\<forall>rsp. response_possible M c rsp \<longrightarrow> safe M (k rsp)))"

text \<open>
  Two verification requests for the sample token that run at the same time: both look the
  token up, then both write the audit record, then both write the count.
\<close>

definition sample_request :: verify_request where
  "sample_request =
     \<lparr>req_token = js ''T1'', req_email = js ''user@example.com'', req_ip = None,
      req_user_agent = None, req_now = 5\<rparr>"

definition both_read_first :: "(nat \<times> fault) list" where
  "both_read_first =
     [(0, Healthy), (1, Healthy), (0, Healthy), (1, Healthy), (0, Healthy), (1, Healthy)]"

text \<open>A process that has returned a success.\<close>

definition succeeded :: "verify_result proc \<Rightarrow> bool" where
  "succeeded p = (case p of Done r \<Rightarrow> valid r | Await c k \<Rightarrow> False)"

subsection \<open>The documents a generation stores, in the specification's words\<close>

definition chosen_token :: "gen_env \<Rightarrow> jsstring" where
  "chosen_token e = (case rpc e of RpcData tok \<Rightarrow> tok | _ \<Rightarrow> generateClientSideToken (random e))"

text \<open>
  The succeeding subset: every document is taken in turn, and it counts when a token
  could be obtained for it, the payload could be built (the expiry is a valid date) and
  the datastore accepted the row, that is, the insert was carried out and the token was
  not yet in the table. \<open>present\<close> are the tokens in the table at that moment.
\<close>

fun stored_documents ::
  "int option \<Rightarrow> (nat \<Rightarrow> gen_env) \<Rightarrow> nat \<Rightarrow> document list \<Rightarrow> jsstring list \<Rightarrow> document list" where
  "stored_documents expiresAtDate envs i [] present = []"
| "stored_documents expiresAtDate envs i (d # ds) present =
     (if rpc (envs i) \<noteq> RpcRejected \<and> expiresAtDate \<noteq> None \<and> store_fault (envs i) = Healthy
         \<and> chosen_token (envs i) \<notin> set present
      then d # stored_documents expiresAtDate envs (Suc i) ds (present @ [chosen_token (envs i)])
      else stored_documents expiresAtDate envs (Suc i) ds present)"

text \<open>
  The link of a stored row can be built when the origin can be read and
  \<open>encodeURIComponent\<close> takes the recipient email, that is, when the email has no
  surrogate that stands alone.
\<close>

definition linkable :: "jsstring option \<Rightarrow> jsstring \<Rightarrow> bool" where
  "linkable origin recipientEmail = (origin \<noteq> None \<and> encodeURIComponent recipientEmail \<noteq> None)"

text \<open>Three documents; the datastore refuses the row of the second.\<close>

definition three_docs :: "document list" where
  "three_docs =
     [\<lparr>doc_id = js ''D1'', name = js ''a'', url = js ''u1''\<rparr>,
      \<lparr>doc_id = js ''D2'', name = js ''b'', url = js ''u2''\<rparr>,
      \<lparr>doc_id = js ''D3'', name = js ''c'', url = js ''u3''\<rparr>]"

definition second_refused :: "nat \<Rightarrow> gen_env" where
  "second_refused i =
     \<lparr>rpc = RpcData (if i = 0 then js ''tokA'' else if i = 1 then js ''tokB'' else js ''tokC''),
      random = (\<lambda>j. j),
      new_id = (if i = 0 then js ''id1'' else if i = 1 then js ''id2'' else js ''id3''),
      default_max_downloads = 5,
      store_fault = (if i = 1 then ReportsError else Healthy)\<rparr>"

text \<open>The same surroundings with every insert carried out.\<close>

definition all_accepted :: "nat \<Rightarrow> gen_env" where
  "all_accepted i = (second_refused i)\<lparr>store_fault := Healthy\<rparr>"

definition empty_db :: database where
  "empty_db = \<lparr>secure_download_tokens = [], download_attempts = [], documents_table = []\<rparr>"

text \<open>No key given: the defaults apply.\<close>

definition no_config :: partial_config where
  "no_config =
     \<lparr>expirationHours_key = Missing, maxDownloads_key = Missing,
      requireEmailVerification_key = Missing\<rparr>"

text \<open>The key \<open>expirationHours\<close> given with the value \<open>undefined\<close>.\<close>

definition undefined_hours :: partial_config where
  "undefined_hours =
     \<lparr>expirationHours_key = Undefined, maxDownloads_key = Missing,
      requireEmailVerification_key = Missing\<rparr>"

text \<open>Date arithmetic in a time zone without daylight saving, within the range of dates.\<close>

definition plain_hours :: "int \<Rightarrow> int option \<Rightarrow> int option" where
  "plain_hours now h =
     (case h of
        None \<Rightarrow> None
      | Some n \<Rightarrow>
          if \<bar>now + n * 3600000\<bar> \<le> 8640000000000000 then Some (now + n * 3600000) else None)"

text \<open>An email that is a single high surrogate, which \<open>encodeURIComponent\<close> refuses.\<close>

definition lone_surrogate :: jsstring where
  "lone_surrogate = [0xD800]"

section \<open>Properties\<close>

subsection \<open>Datastore calls\<close>

lemma exec_InsertAttempt:
  "exec (InsertAttempt a) f db =
     (outcome f, if f = Healthy then db\<lparr>download_attempts := download_attempts db @ [a]\<rparr> else db)"
  by (cases f) (simp_all add: outcome_def)

lemma exec_UpdateToken:
  "exec (UpdateToken i p) f db =
     (outcome f,
      if f = Healthy
      then db\<lparr>secure_download_tokens :=
                map (\<lambda>r. if row_id r = i then apply_patch p r else r) (secure_download_tokens db)\<rparr>
      else db)"
  by (cases f) (simp_all add: outcome_def)

lemma snd_exec_Select: "snd (exec (SelectActiveToken tok) f db) = db"
  by (cases f) (simp_all split: list.splits)

lemma run_Await:
  "run env (Await c k) db = run env (k (fst (exec c (env c) db))) (snd (exec c (env c) db))"
  by (simp split: prod.splits)

lemma run_Await_UpdateToken:
  "run env (Await (UpdateToken i p) k) db =
     run env (k (outcome (env (UpdateToken i p)))) (updated env i p db)"
  by (simp add: run_Await updated_def exec_UpdateToken del: run.simps(2))

lemma run_logDownloadAttempt:
  "run env (logDownloadAttempt toLowerCase tokenId em s fr ip ua now k) db =
     run env k
       (audit env \<lparr>token_id = tokenId, attempted_email = trim (toLowerCase em), ip_address = ip,
                  user_agent = ua, success = s, failure_reason = fr, attempted_at = now\<rparr> db)"
  by (simp add: logDownloadAttempt_def audit_def split: prod.splits response.splits)

subsection \<open>The runs of \<open>verifyDownloadToken\<close>, branch by branch\<close>

lemma run_verify_lookup_raises:
  assumes "fst (exec (SelectActiveToken tok) (env (SelectActiveToken tok)) db) = Rejected"
  shows "run env (verifyDownloadToken toLowerCase tok em ip ua now) db =
           (failed SystemError None, audit env (entry toLowerCase None em ip ua now (Some system_error)) db)"
  using assms
  by (simp add: verifyDownloadToken_def Let_def run_logDownloadAttempt entry_def failed_def
        run_Await [of _ "SelectActiveToken tok"] snd_exec_Select del: run.simps(2))

lemma run_verify_not_found:
  assumes "fst (exec (SelectActiveToken tok) (env (SelectActiveToken tok)) db) = Resolved d e"
    and "(if e then None else d) = None"
  shows "run env (verifyDownloadToken toLowerCase tok em ip ua now) db =
           (failed InvalidLink None, audit env (entry toLowerCase None em ip ua now (Some invalid_or_expired)) db)"
  using assms
  by (simp add: verifyDownloadToken_def Let_def run_logDownloadAttempt entry_def failed_def
        run_Await [of _ "SelectActiveToken tok"] snd_exec_Select del: run.simps(2))

lemma run_verify_expired:
  assumes "fst (exec (SelectActiveToken tok) (env (SelectActiveToken tok)) db) = Resolved (Some t) False"
    and "now > expires_at t"
  shows "run env (verifyDownloadToken toLowerCase tok em ip ua now) db =
           (if env (UpdateToken (row_id t) (deactivation now)) = Raises
            then (failed SystemError None,
                  audit env (entry toLowerCase None em ip ua now (Some system_error))
                    (audit env (entry toLowerCase (Some (row_id t)) em ip ua now (Some expired)) db))
            else (failed (ExpiredOn (expires_at t)) (Some t),
                  updated env (row_id t) (deactivation now)
                    (audit env (entry toLowerCase (Some (row_id t)) em ip ua now (Some expired)) db)))"
  using assms
  by (cases "env (UpdateToken (row_id t) (deactivation now))")
     (simp_all add: verifyDownloadToken_def Let_def run_logDownloadAttempt entry_def failed_def
        run_Await [of _ "SelectActiveToken tok"] snd_exec_Select run_Await_UpdateToken
        deactivation_def outcome_def updated_def exec_UpdateToken del: run.simps(2))

lemma run_verify_mismatch:
  assumes "fst (exec (SelectActiveToken tok) (env (SelectActiveToken tok)) db) = Resolved (Some t) False"
    and "\<not> now > expires_at t"
    and "trim (toLowerCase (recipient_email t)) \<noteq> trim (toLowerCase em)"
  shows "run env (verifyDownloadToken toLowerCase tok em ip ua now) db =
           (failed (AuthorizedOnlyFor (recipient_email t)) (Some t),
            audit env (entry toLowerCase (Some (row_id t)) em ip ua now (Some email_mismatch)) db)"
  using assms
  by (simp add: verifyDownloadToken_def Let_def run_logDownloadAttempt entry_def failed_def
        run_Await [of _ "SelectActiveToken tok"] snd_exec_Select del: run.simps(2))

lemma run_verify_quota:
  assumes "fst (exec (SelectActiveToken tok) (env (SelectActiveToken tok)) db) = Resolved (Some t) False"
    and "\<not> now > expires_at t"
    and "trim (toLowerCase (recipient_email t)) = trim (toLowerCase em)"
    and "download_count t \<ge> max_downloads t"
  shows "run env (verifyDownloadToken toLowerCase tok em ip ua now) db =
           (failed (LimitReached (max_downloads t)) (Some t),
            audit env (entry toLowerCase (Some (row_id t)) em ip ua now (Some quota_exceeded)) db)"
  using assms
  by (simp add: verifyDownloadToken_def Let_def run_logDownloadAttempt entry_def failed_def
        run_Await [of _ "SelectActiveToken tok"] snd_exec_Select del: run.simps(2))

lemma run_verify_missing:
  assumes "fst (exec (SelectActiveToken tok) (env (SelectActiveToken tok)) db) = Resolved (Some t) False"
    and "\<not> now > expires_at t"
    and "trim (toLowerCase (recipient_email t)) = trim (toLowerCase em)"
    and "download_count t < max_downloads t"
    and "project_documents t = None"
  shows "run env (verifyDownloadToken toLowerCase tok em ip ua now) db =
           (failed DocumentUnavailable (Some t),
            audit env (entry toLowerCase (Some (row_id t)) em ip ua now (Some document_missing)) db)"
  using assms
  by (simp add: verifyDownloadToken_def Let_def run_logDownloadAttempt entry_def failed_def
        run_Await [of _ "SelectActiveToken tok"] snd_exec_Select del: run.simps(2))

lemma run_verify_pass:
  assumes "fst (exec (SelectActiveToken tok) (env (SelectActiveToken tok)) db) = Resolved (Some t) False"
    and "\<not> now > expires_at t"
    and "trim (toLowerCase (recipient_email t)) = trim (toLowerCase em)"
    and "download_count t < max_downloads t"
    and "project_documents t = Some d"
  shows "run env (verifyDownloadToken toLowerCase tok em ip ua now) db =
           (if env (UpdateToken (row_id t) (increment t now)) = Raises
            then (failed SystemError None,
                  audit env (entry toLowerCase None em ip ua now (Some system_error))
                    (audit env (entry toLowerCase (Some (row_id t)) em ip ua now None) db))
            else (\<lparr>valid = True, document = Some d, reason = None, tokenData = Some t\<rparr>,
                  updated env (row_id t) (increment t now)
                    (audit env (entry toLowerCase (Some (row_id t)) em ip ua now None) db)))"
  using assms
  by (cases "env (UpdateToken (row_id t) (increment t now))")
     (simp_all add: verifyDownloadToken_def Let_def run_logDownloadAttempt entry_def failed_def
        run_Await [of _ "SelectActiveToken tok"] snd_exec_Select run_Await_UpdateToken
        increment_def outcome_def updated_def exec_UpdateToken del: run.simps(2))

lemma download_attempts_audit:
  "download_attempts (audit env a db) =
     download_attempts db @ (if env (InsertAttempt a) = Healthy then [a] else [])"
  by (simp add: audit_def exec_InsertAttempt)

lemma secure_download_tokens_audit:
  "secure_download_tokens (audit env a db) = secure_download_tokens db"
  by (simp add: audit_def exec_InsertAttempt)

lemma download_attempts_updated:
  "download_attempts (updated env i p db) = download_attempts db"
  by (simp add: updated_def exec_UpdateToken)

lemma secure_download_tokens_updated:
  "secure_download_tokens (updated env i p db) =
     (if env (UpdateToken i p) = Healthy
      then map (\<lambda>r. if row_id r = i then apply_patch p r else r) (secure_download_tokens db)
      else secure_download_tokens db)"
  by (simp add: updated_def exec_UpdateToken)

text \<open>
  The branches of the pipeline as a case distinction on the response of the lookup, the
  clock and the claimed email.
\<close>

lemma verify_cases:
  obtains (raises) "rsp = Rejected"
  | (no_row) d e where "rsp = Resolved d e" "(if e then None else d) = None"
  | (expired) t where "rsp = Resolved (Some t) False" "now > expires_at t"
  | (mismatch) t where "rsp = Resolved (Some t) False" "\<not> now > expires_at t"
      "trim (toLowerCase (recipient_email t)) \<noteq> trim (toLowerCase em)"
  | (quota) t where "rsp = Resolved (Some t) False" "\<not> now > expires_at t"
      "trim (toLowerCase (recipient_email t)) = trim (toLowerCase em)"
      "download_count t \<ge> max_downloads t"
  | (missing) t where "rsp = Resolved (Some t) False" "\<not> now > expires_at t"
      "trim (toLowerCase (recipient_email t)) = trim (toLowerCase em)"
      "download_count t < max_downloads t" "project_documents t = None"
  | (pass) t d where "rsp = Resolved (Some t) False" "\<not> now > expires_at t"
      "trim (toLowerCase (recipient_email t)) = trim (toLowerCase em)"
      "download_count t < max_downloads t" "project_documents t = Some d"
proof (cases rsp)
  case Rejected
  then show ?thesis by (rule that(1))
next
  case (Resolved d e)
  show ?thesis
  proof (cases "if e then None else d")
    case None
    with Resolved show ?thesis by (rule that(2))
  next
    case (Some t)
    then have "\<not> e" and "d = Some t"
      by (auto split: if_splits)
    with Resolved have row: "rsp = Resolved (Some t) False"
      by simp
    show ?thesis
    proof (cases "project_documents t")
      case None
      with row show ?thesis
        using that(3) [of t] that(4) [of t] that(5) [of t] that(6) [of t] by force
    next
      case (Some d)
      with row show ?thesis
        using that(3) [of t] that(4) [of t] that(5) [of t] that(7) [of t d] by force
    qed
  qed
qed

subsection \<open>The audit logger (C9)\<close>

text \<open>
  Claim C9. The audit logger never raises to its caller: however the insert ends (carried
  out, answered with an error, or a rejected promise), \<open>logDownloadAttempt\<close> goes on with
  what its caller does next, and the table holds the new record only when the insert was
  carried out. So a logging failure cannot change a verification: two environments that
  differ only in how the inserts into \<open>download_attempts\<close> end give the same result of
  \<open>verifyDownloadToken\<close> and the same token table.
\<close>

theorem logDownloadAttempt_never_raises:
  "run env (logDownloadAttempt toLowerCase tokenId em s fr ip ua now k) db =
     run env k
       (if env (InsertAttempt
                  \<lparr>token_id = tokenId, attempted_email = trim (toLowerCase em), ip_address = ip,
                   user_agent = ua, success = s, failure_reason = fr, attempted_at = now\<rparr>) = Healthy
        then db\<lparr>download_attempts := download_attempts db @
                  [\<lparr>token_id = tokenId, attempted_email = trim (toLowerCase em), ip_address = ip,
                    user_agent = ua, success = s, failure_reason = fr, attempted_at = now\<rparr>]\<rparr>
        else db)
   \<and> ((\<forall>c. (\<forall>a. c \<noteq> InsertAttempt a) \<longrightarrow> env c = env' c) \<longrightarrow>
        fst (run env (verifyDownloadToken toLowerCase tok em ip ua now) db)
          = fst (run env' (verifyDownloadToken toLowerCase tok em ip ua now) db)
        \<and> secure_download_tokens (snd (run env (verifyDownloadToken toLowerCase tok em ip ua now) db))
          = secure_download_tokens (snd (run env' (verifyDownloadToken toLowerCase tok em ip ua now) db)))"
proof (intro conjI impI)
  show "run env (logDownloadAttempt toLowerCase tokenId em s fr ip ua now k) db =
     run env k
       (if env (InsertAttempt
                  \<lparr>token_id = tokenId, attempted_email = trim (toLowerCase em), ip_address = ip,
                   user_agent = ua, success = s, failure_reason = fr, attempted_at = now\<rparr>) = Healthy
        then db\<lparr>download_attempts := download_attempts db @
                  [\<lparr>token_id = tokenId, attempted_email = trim (toLowerCase em), ip_address = ip,
                    user_agent = ua, success = s, failure_reason = fr, attempted_at = now\<rparr>]\<rparr>
        else db)"
    by (simp add: run_logDownloadAttempt audit_def exec_InsertAttempt)
next
  assume agree: "\<forall>c. (\<forall>a. c \<noteq> InsertAttempt a) \<longrightarrow> env c = env' c"
  have s: "env' (SelectActiveToken tok) = env (SelectActiveToken tok)"
    using agree by simp
  have u: "\<And>i p. env' (UpdateToken i p) = env (UpdateToken i p)"
    using agree by simp
  let ?rsp = "fst (exec (SelectActiveToken tok) (env (SelectActiveToken tok)) db)"
  have "fst (run env (verifyDownloadToken toLowerCase tok em ip ua now) db)
          = fst (run env' (verifyDownloadToken toLowerCase tok em ip ua now) db)
        \<and> secure_download_tokens (snd (run env (verifyDownloadToken toLowerCase tok em ip ua now) db))
          = secure_download_tokens (snd (run env' (verifyDownloadToken toLowerCase tok em ip ua now) db))"
  proof (cases ?rsp rule: verify_cases [where now = now and em = em and toLowerCase = toLowerCase])
    case raises
    have l': "fst (exec (SelectActiveToken tok) (env' (SelectActiveToken tok)) db) = Rejected"
      using raises by (simp add: s)
    show ?thesis
      by (simp add: run_verify_lookup_raises [where env = env and tok = tok and db = db, OF raises]
            run_verify_lookup_raises [where env = env' and tok = tok and db = db, OF l']
            secure_download_tokens_audit)
  next
    case (no_row d e)
    have l': "fst (exec (SelectActiveToken tok) (env' (SelectActiveToken tok)) db) = Resolved d e"
      using no_row(1) by (simp add: s)
    show ?thesis
      by (simp add: run_verify_not_found [where env = env and tok = tok and db = db, OF no_row]
            run_verify_not_found [where env = env' and tok = tok and db = db, OF l' no_row(2-)]
            secure_download_tokens_audit)
  next
    case (expired t)
    have l': "fst (exec (SelectActiveToken tok) (env' (SelectActiveToken tok)) db) = Resolved (Some t) False"
      using expired(1) by (simp add: s)
    show ?thesis
      by (simp add: run_verify_expired [where env = env and tok = tok and db = db, OF expired]
            run_verify_expired [where env = env' and tok = tok and db = db, OF l' expired(2-)]
            secure_download_tokens_audit secure_download_tokens_updated u)
  next
    case (mismatch t)
    have l': "fst (exec (SelectActiveToken tok) (env' (SelectActiveToken tok)) db) = Resolved (Some t) False"
      using mismatch(1) by (simp add: s)
    show ?thesis
      by (simp add: run_verify_mismatch [where env = env and tok = tok and db = db, OF mismatch]
            run_verify_mismatch [where env = env' and tok = tok and db = db, OF l' mismatch(2-)]
            secure_download_tokens_audit)
  next
    case (quota t)
    have l': "fst (exec (SelectActiveToken tok) (env' (SelectActiveToken tok)) db) = Resolved (Some t) False"
      using quota(1) by (simp add: s)
    show ?thesis
      by (simp add: run_verify_quota [where env = env and tok = tok and db = db, OF quota]
            run_verify_quota [where env = env' and tok = tok and db = db, OF l' quota(2-)]
            secure_download_tokens_audit)
  next
    case (missing t)
    have l': "fst (exec (SelectActiveToken tok) (env' (SelectActiveToken tok)) db) = Resolved (Some t) False"
      using missing(1) by (simp add: s)
    show ?thesis
      by (simp add: run_verify_missing [where env = env and tok = tok and db = db, OF missing]
            run_verify_missing [where env = env' and tok = tok and db = db, OF l' missing(2-)]
            secure_download_tokens_audit)
  next
    case (pass t d)
    have l': "fst (exec (SelectActiveToken tok) (env' (SelectActiveToken tok)) db) = Resolved (Some t) False"
      using pass(1) by (simp add: s)
    show ?thesis
      by (simp add: run_verify_pass [where env = env and tok = tok and db = db, OF pass]
            run_verify_pass [where env = env' and tok = tok and db = db, OF l' pass(2-)]
            secure_download_tokens_audit secure_download_tokens_updated u)
  qed
  then show "fst (run env (verifyDownloadToken toLowerCase tok em ip ua now) db)
          = fst (run env' (verifyDownloadToken toLowerCase tok em ip ua now) db)"
    and "secure_download_tokens (snd (run env (verifyDownloadToken toLowerCase tok em ip ua now) db))
          = secure_download_tokens (snd (run env' (verifyDownloadToken toLowerCase tok em ip ua now) db))"
    by simp_all
qed

text \<open>Unfolding the sample data and the string functions on literals.\<close>

lemmas sample_eval =
  sample_db_def sample_row_def sample_doc_def join_def token_row.extend_def joined_row.fields_def
  js_def trim_def ascii_toLowerCase_def lower_ascii_def is_space_def

text \<open>
  On the sample datastore, a verification whose audit insert is refused succeeds as the one
  on a healthy datastore does, and leaves no audit record.
\<close>

theorem logDownloadAttempt_never_raises_witness:
  "valid (fst (run audit_refused (verifyDownloadToken ascii_toLowerCase (js ''T1'') (js ''user@example.com'') None None 5) sample_db))
   \<and> valid (fst (run healthy (verifyDownloadToken ascii_toLowerCase (js ''T1'') (js ''user@example.com'') None None 5) sample_db))
   \<and> download_attempts
       (snd (run audit_refused (verifyDownloadToken ascii_toLowerCase (js ''T1'') (js ''user@example.com'') None None 5) sample_db)) = []"
proof -
  have "\<forall>c. (\<forall>a. c \<noteq> InsertAttempt a) \<longrightarrow> audit_refused c = healthy c"
    by (simp add: audit_refused_def healthy_def split: dbcall.splits)
  moreover have "valid (fst (run healthy
      (verifyDownloadToken ascii_toLowerCase (js ''T1'') (js ''user@example.com'') None None 5) sample_db))"
    by (simp add: verifyDownloadToken_def logDownloadAttempt_def Let_def healthy_def sample_eval)
  moreover have "download_attempts
       (snd (run audit_refused (verifyDownloadToken ascii_toLowerCase (js ''T1'') (js ''user@example.com'') None None 5) sample_db)) = []"
    by (simp add: verifyDownloadToken_def logDownloadAttempt_def Let_def audit_refused_def sample_eval)
  ultimately show ?thesis
    using logDownloadAttempt_never_raises
      [where env = audit_refused and env' = healthy and tok = "js ''T1''"
         and em = "js ''user@example.com''" and ip = None and ua = None and now = 5
         and db = sample_db and tokenId = None and s = True and fr = None and k = "Done ()"]
    by simp
qed


subsection \<open>The order of the checks and the audit record (C3)\<close>

text \<open>
  Claim C3, amended. \<open>verifyDownloadToken\<close> applies the checks in the fixed order lookup,
  expiration, email match, quota, document existence and stops at the first that fails.
  Whenever no update of the datastore raises, the result is that of the first failing
  check (\<open>system_error\<close> when the lookup itself raises, success when none fails), however
  the audit insert ends; and the call makes one audit insert, of the record that carries
  that outcome and the id of the token found, so that it appends exactly one record to
  \<open>download_attempts\<close> when the datastore accepts the insert, and none otherwise.
\<close>

theorem verify_first_failing_check:
  assumes "\<forall>i p. env (UpdateToken i p) \<noteq> Raises"
  shows "valid (fst (run env (verifyDownloadToken toLowerCase tok em ip ua now) db))
           = (expected_outcome toLowerCase
                (fst (exec (SelectActiveToken tok) (env (SelectActiveToken tok)) db)) em now = None)
       \<and> map_option failure_of_message
           (reason (fst (run env (verifyDownloadToken toLowerCase tok em ip ua now) db)))
           = expected_outcome toLowerCase
               (fst (exec (SelectActiveToken tok) (env (SelectActiveToken tok)) db)) em now
       \<and> download_attempts (snd (run env (verifyDownloadToken toLowerCase tok em ip ua now) db))
           = download_attempts db @
               (if env (InsertAttempt
                     (entry toLowerCase
                        (map_option row_id
                           (found (fst (exec (SelectActiveToken tok) (env (SelectActiveToken tok)) db))))
                        em ip ua now
                        (expected_outcome toLowerCase
                           (fst (exec (SelectActiveToken tok) (env (SelectActiveToken tok)) db))
                           em now))) = Healthy
                then [entry toLowerCase
                        (map_option row_id
                           (found (fst (exec (SelectActiveToken tok) (env (SelectActiveToken tok)) db))))
                        em ip ua now
                        (expected_outcome toLowerCase
                           (fst (exec (SelectActiveToken tok) (env (SelectActiveToken tok)) db))
                           em now)]
                else [])"
proof (cases "fst (exec (SelectActiveToken tok) (env (SelectActiveToken tok)) db)"
    rule: verify_cases [where now = now and em = em and toLowerCase = toLowerCase])
  case raises
  then show ?thesis
    by (simp add: run_verify_lookup_raises [where env = env and tok = tok and db = db, OF raises]
          expected_outcome_def failed_def download_attempts_audit)
next
  case (no_row d e)
  then show ?thesis
    by (simp add: run_verify_not_found [where env = env and tok = tok and db = db, OF no_row]
          expected_outcome_def first_failing_check_def failed_def download_attempts_audit)
next
  case (expired t)
  then show ?thesis
    using assms [rule_format, of "row_id t" "deactivation now"]
    by (simp add: run_verify_expired [where env = env and tok = tok and db = db, OF expired]
          expected_outcome_def first_failing_check_def failed_def download_attempts_audit
          download_attempts_updated)
next
  case (mismatch t)
  then show ?thesis
    by (simp add: run_verify_mismatch [where env = env and tok = tok and db = db, OF mismatch]
          expected_outcome_def first_failing_check_def failed_def download_attempts_audit)
next
  case (quota t)
  then show ?thesis
    by (simp add: run_verify_quota [where env = env and tok = tok and db = db, OF quota]
          expected_outcome_def first_failing_check_def failed_def download_attempts_audit)
next
  case (missing t)
  then show ?thesis
    by (simp add: run_verify_missing [where env = env and tok = tok and db = db, OF missing]
          expected_outcome_def first_failing_check_def failed_def download_attempts_audit)
next
  case (pass t d)
  then show ?thesis
    using assms [rule_format, of "row_id t" "increment t now"]
    by (simp add: run_verify_pass [where env = env and tok = tok and db = db, OF pass]
          expected_outcome_def first_failing_check_def failed_def download_attempts_audit
          download_attempts_updated)
qed

text \<open>
  Claim C3 as stated, with exactly one audit record for every call, fails on the sample
  datastore: when the update of the count raises after the success was logged, the
  \<open>catch\<close> block logs a second record; when the datastore refuses the audit insert, there
  is none.
\<close>

theorem verify_audit_count_counterexample:
  "length (download_attempts
     (snd (run update_raises
        (verifyDownloadToken ascii_toLowerCase (js ''T1'') (js ''user@example.com'') None None 5)
        sample_db))) = 2
   \<and> length (download_attempts
     (snd (run audit_refused
        (verifyDownloadToken ascii_toLowerCase (js ''T1'') (js ''user@example.com'') None None 5)
        sample_db))) = 0"
  by (simp add: verifyDownloadToken_def logDownloadAttempt_def Let_def update_raises_def
        audit_refused_def sample_eval)

text \<open>
  On the sample datastore the right email passes every check, a wrong email fails at the
  email check, and both do so also when the datastore refuses the audit insert; the
  healthy datastore holds one record after the call, the refusing one none.
\<close>

theorem verify_first_failing_check_witness:
  "valid (fst (run healthy
      (verifyDownloadToken ascii_toLowerCase (js ''T1'') (js ''user@example.com'') None None 5)
      sample_db))
   \<and> length (download_attempts (snd (run healthy
        (verifyDownloadToken ascii_toLowerCase (js ''T1'') (js ''user@example.com'') None None 5)
        sample_db))) = 1
   \<and> valid (fst (run audit_refused
        (verifyDownloadToken ascii_toLowerCase (js ''T1'') (js ''user@example.com'') None None 5)
        sample_db))
   \<and> map_option failure_of_message (reason (fst (run audit_refused
        (verifyDownloadToken ascii_toLowerCase (js ''T1'') (js ''other@example.com'') None None 5)
        sample_db)))
       = Some email_mismatch"
proof -
  have h: "\<forall>i p. healthy (UpdateToken i p) \<noteq> Raises"
    and r: "\<forall>i p. audit_refused (UpdateToken i p) \<noteq> Raises"
    by (simp_all add: healthy_def audit_refused_def)
  have l: "fst (exec (SelectActiveToken (js ''T1'')) (healthy (SelectActiveToken (js ''T1''))) sample_db)
     = Resolved (Some (join sample_db sample_row)) False"
    "fst (exec (SelectActiveToken (js ''T1'')) (audit_refused (SelectActiveToken (js ''T1''))) sample_db)
     = Resolved (Some (join sample_db sample_row)) False"
    by (simp_all add: healthy_def audit_refused_def sample_db_def sample_row_def)
  have "expected_outcome ascii_toLowerCase (Resolved (Some (join sample_db sample_row)) False)
      (js ''user@example.com'') 5 = None"
    by (simp add: expected_outcome_def first_failing_check_def sample_eval)
  moreover have "expected_outcome ascii_toLowerCase (Resolved (Some (join sample_db sample_row)) False)
      (js ''other@example.com'') 5 = Some email_mismatch"
    by (simp add: expected_outcome_def first_failing_check_def sample_eval)
  moreover have "download_attempts sample_db = []"
    by (simp add: sample_db_def)
  moreover have "\<And>a. healthy (InsertAttempt a) = Healthy"
    by (simp add: healthy_def)
  ultimately show ?thesis
    using verify_first_failing_check [OF h, where toLowerCase = ascii_toLowerCase
        and tok = "js ''T1''" and em = "js ''user@example.com''" and ip = None and ua = None
        and now = 5 and db = sample_db]
      verify_first_failing_check [OF r, where toLowerCase = ascii_toLowerCase
        and tok = "js ''T1''" and em = "js ''user@example.com''" and ip = None and ua = None
        and now = 5 and db = sample_db]
      verify_first_failing_check [OF r, where toLowerCase = ascii_toLowerCase
        and tok = "js ''T1''" and em = "js ''other@example.com''" and ip = None and ua = None
        and now = 5 and db = sample_db]
    by (simp add: l)
qed

subsection \<open>A failed update of the count (C2)\<close>

text \<open>
  Claim C2 as stated fails on the sample datastore: the datastore answers the update of
  the count with an error, and the call still returns success, with a success record in
  the audit trail and no quota failure.
\<close>

theorem verify_update_refused_counterexample:
  "valid (fst (run update_refused (verifyDownloadToken ascii_toLowerCase (js ''T1'') (js ''user@example.com'') None None 5) sample_db))
   \<and> reason (fst (run update_refused (verifyDownloadToken ascii_toLowerCase (js ''T1'') (js ''user@example.com'') None None 5) sample_db))
       = None
   \<and> map success (download_attempts
        (snd (run update_refused (verifyDownloadToken ascii_toLowerCase (js ''T1'') (js ''user@example.com'') None None 5) sample_db)))
       = [True]
   \<and> map failure_reason (download_attempts
        (snd (run update_refused (verifyDownloadToken ascii_toLowerCase (js ''T1'') (js ''user@example.com'') None None 5) sample_db)))
       = [None]"
  by (simp add: verifyDownloadToken_def logDownloadAttempt_def Let_def update_refused_def sample_eval)

text \<open>
  Claim C2, amended. If every check of the pipeline passes and the datastore answers the
  update that increments \<open>download_count\<close> with an error, \<open>verifyDownloadToken\<close> still
  returns success, with the document and the token record as read; the token table is
  unchanged, and the one audit record of the call (present when its insert was carried
  out) is the success record.
\<close>

theorem verify_update_refused_still_succeeds:
  assumes "fst (exec (SelectActiveToken tok) (env (SelectActiveToken tok)) db) = Resolved (Some t) False"
    and "\<not> now > expires_at t"
    and "trim (toLowerCase (recipient_email t)) = trim (toLowerCase em)"
    and "download_count t < max_downloads t"
    and "project_documents t = Some d"
    and "env (UpdateToken (row_id t) (increment t now)) = ReportsError"
  shows "fst (run env (verifyDownloadToken toLowerCase tok em ip ua now) db)
           = \<lparr>valid = True, document = Some d, reason = None, tokenData = Some t\<rparr>
       \<and> secure_download_tokens (snd (run env (verifyDownloadToken toLowerCase tok em ip ua now) db))
           = secure_download_tokens db
       \<and> download_attempts (snd (run env (verifyDownloadToken toLowerCase tok em ip ua now) db))
           = download_attempts db @
               (if env (InsertAttempt (entry toLowerCase (Some (row_id t)) em ip ua now None)) = Healthy
                then [entry toLowerCase (Some (row_id t)) em ip ua now None] else [])"
  using assms(6)
  by (simp add: run_verify_pass [where env = env and tok = tok and db = db, OF assms(1-5)]
        download_attempts_audit download_attempts_updated secure_download_tokens_audit
        secure_download_tokens_updated)

text \<open>The sample token, verified while every update is answered with an error.\<close>

theorem verify_update_refused_still_succeeds_witness:
  "fst (run update_refused (verifyDownloadToken ascii_toLowerCase (js ''T1'') (js ''user@example.com'') None None 5) sample_db)
     = \<lparr>valid = True, document = Some sample_doc, reason = None,
        tokenData = Some (join sample_db sample_row)\<rparr>
   \<and> secure_download_tokens
       (snd (run update_refused (verifyDownloadToken ascii_toLowerCase (js ''T1'') (js ''user@example.com'') None None 5) sample_db))
     = [sample_row]"
proof -
  have "fst (exec (SelectActiveToken (js ''T1'')) (update_refused (SelectActiveToken (js ''T1''))) sample_db)
     = Resolved (Some (join sample_db sample_row)) False"
    by (simp add: update_refused_def sample_db_def sample_row_def)
  moreover have "\<not> 5 > expires_at (join sample_db sample_row)"
    and "trim (ascii_toLowerCase (recipient_email (join sample_db sample_row)))
           = trim (ascii_toLowerCase (js ''user@example.com''))"
    and "download_count (join sample_db sample_row) < max_downloads (join sample_db sample_row)"
    and "project_documents (join sample_db sample_row) = Some sample_doc"
    by (simp_all add: sample_eval)
  moreover have "update_refused (UpdateToken (row_id (join sample_db sample_row))
                   (increment (join sample_db sample_row) 5)) = ReportsError"
    by (simp add: update_refused_def)
  ultimately show ?thesis
    using verify_update_refused_still_succeeds
      [where toLowerCase = ascii_toLowerCase and tok = "js ''T1''" and env = update_refused
         and db = sample_db and t = "join sample_db sample_row" and now = 5
         and em = "js ''user@example.com''" and d = sample_doc and ip = None and ua = None]
    by (simp add: sample_db_def)
qed

subsection \<open>The email comparison (C5)\<close>

lemma dropWhile_keeps:
  "xs \<noteq> [] \<Longrightarrow> \<not> P (hd xs) \<Longrightarrow> dropWhile P (xs @ ys) = xs @ ys"
  by (cases xs) simp_all

lemma dropWhile_skips:
  "\<forall>c\<in>set xs. P c \<Longrightarrow> dropWhile P (xs @ ys) = dropWhile P ys"
  by (induction xs) simp_all

lemma trim_padded:
  assumes "\<forall>c\<in>set pre. is_space c" and "\<forall>c\<in>set post. is_space c" and "trimmed x"
  shows "trim (pre @ x @ post) = x"
proof (cases "x = []")
  case True
  from assms(2) have rest: "dropWhile is_space post = []"
    by simp
  from True assms(1) show ?thesis
    by (simp add: trim_def dropWhile_skips rest)
next
  case False
  with assms(3) have first: "\<not> is_space (hd x)" and final: "\<not> is_space (last x)"
    by (simp_all add: trimmed_def)
  from False first assms(1) have front: "dropWhile is_space (pre @ x @ post) = x @ post"
    by (simp add: dropWhile_skips dropWhile_keeps)
  from False final have "dropWhile is_space (rev x) = rev x"
    using dropWhile_keeps [of "rev x" is_space "[]"] by (simp add: hd_rev)
  moreover from assms(2) have "dropWhile is_space (rev post @ rev x) = dropWhile is_space (rev x)"
    by (simp add: dropWhile_skips)
  ultimately have "dropWhile is_space (rev (x @ post)) = rev x"
    by simp
  with front show ?thesis
    by (simp add: trim_def)
qed

lemma is_space_lower_ascii: "is_space (lower_ascii c) = is_space c"
  by (simp add: lower_ascii_def is_space_def)

lemma trimmed_lower_ascii: "trimmed (map lower_ascii s) = trimmed s"
  by (cases "s = []") (simp_all add: trimmed_def hd_map last_map is_space_lower_ascii)

lemma ascii_append: "ascii (xs @ ys) = (ascii xs \<and> ascii ys)"
  by (simp add: ascii_def)

lemma blank_ascii: "blank s \<Longrightarrow> ascii s"
  by (simp add: blank_def ascii_def list_all_iff)

lemma blank_lower_ascii: "blank s \<Longrightarrow> \<forall>c\<in>set (map lower_ascii s). is_space c"
  by (simp add: blank_def list_all_iff is_space_lower_ascii)

lemma normalise_padded:
  assumes "faithful_on_ascii toLowerCase" and "blank pre" and "blank post"
    and "ascii v" and "trimmed v"
  shows "trim (toLowerCase (pre @ v @ post)) = map lower_ascii v"
proof -
  from assms(2-4) have "ascii (pre @ v @ post)"
    by (simp add: ascii_append blank_ascii)
  with assms(1) have "toLowerCase (pre @ v @ post)
      = map lower_ascii pre @ map lower_ascii v @ map lower_ascii post"
    by (simp add: faithful_on_ascii_def)
  moreover from assms(5) have "trimmed (map lower_ascii v)"
    by (simp add: trimmed_lower_ascii)
  ultimately show ?thesis
    using blank_lower_ascii [OF assms(2)] blank_lower_ascii [OF assms(3)]
    by (simp add: trim_padded)
qed


text \<open>
  Claim C5. For a token that the lookup resolves and that has not expired, the call fails
  with the email mismatch exactly when the stored recipient email and the claimed email
  differ after lower-casing and trimming both, whatever lower-casing function the platform
  provides; when they agree, and the quota and the document are in order, the call
  succeeds. For ASCII addresses, on which every conforming lower-casing function turns
  \<open>A\<close>..\<open>Z\<close> into \<open>a\<close>..\<open>z\<close> and changes nothing else, the comparison is
  insensitive to case and to surrounding white space and to nothing more: when each
  address is a core, neither beginning nor ending with white space, with white space
  before and after it, the mismatch is reported exactly when the two cores differ in some
  position by more than the case of a letter.
\<close>

theorem verify_email_comparison:
  assumes "fst (exec (SelectActiveToken tok) (env (SelectActiveToken tok)) db) = Resolved (Some t) False"
    and "\<not> now > expires_at t"
  shows "(reason (fst (run env (verifyDownloadToken toLowerCase tok em ip ua now) db))
            = Some (AuthorizedOnlyFor (recipient_email t)))
           = (trim (toLowerCase (recipient_email t)) \<noteq> trim (toLowerCase em))
       \<and> (trim (toLowerCase (recipient_email t)) = trim (toLowerCase em)
            \<and> download_count t < max_downloads t \<and> project_documents t \<noteq> None
            \<and> env (UpdateToken (row_id t) (increment t now)) \<noteq> Raises
          \<longrightarrow> valid (fst (run env (verifyDownloadToken toLowerCase tok em ip ua now) db)))
       \<and> (faithful_on_ascii toLowerCase
            \<and> recipient_email t = before @ stored @ after \<and> blank before \<and> blank after
            \<and> ascii stored \<and> trimmed stored
            \<and> em = before' @ claimed @ after' \<and> blank before' \<and> blank after'
            \<and> ascii claimed \<and> trimmed claimed
          \<longrightarrow> (reason (fst (run env (verifyDownloadToken toLowerCase tok em ip ua now) db))
                 = Some (AuthorizedOnlyFor (recipient_email t)))
              = (map lower_ascii stored \<noteq> map lower_ascii claimed))"
proof -
  let ?r = "fst (run env (verifyDownloadToken toLowerCase tok em ip ua now) db)"
  have compared: "(reason ?r = Some (AuthorizedOnlyFor (recipient_email t)))
      = (trim (toLowerCase (recipient_email t)) \<noteq> trim (toLowerCase em))"
  proof (cases "trim (toLowerCase (recipient_email t)) = trim (toLowerCase em)")
    case False
    then show ?thesis
      by (simp add: run_verify_mismatch [where env = env and tok = tok and db = db, OF assms]
            failed_def)
  next
    case same: True
    show ?thesis
    proof (cases "download_count t < max_downloads t")
      case False
      then show ?thesis
        using same
        by (simp add: run_verify_quota [where env = env and tok = tok and db = db, OF assms same]
              failed_def)
    next
      case room: True
      show ?thesis
      proof (cases "project_documents t")
        case None
        then show ?thesis
          using same room
          by (simp add: run_verify_missing [where env = env and tok = tok and db = db,
                OF assms same room] failed_def)
      next
        case (Some d)
        then show ?thesis
          using same room
          by (simp add: run_verify_pass [where env = env and tok = tok and db = db,
                OF assms same room] failed_def)
      qed
    qed
  qed
  have passes: "valid ?r"
    if "trim (toLowerCase (recipient_email t)) = trim (toLowerCase em)"
      and "download_count t < max_downloads t" and "project_documents t \<noteq> None"
      and "env (UpdateToken (row_id t) (increment t now)) \<noteq> Raises"
  proof -
    from that(3) obtain d where "project_documents t = Some d"
      by auto
    with that(4) show ?thesis
      by (simp add: run_verify_pass [where env = env and tok = tok and db = db,
            OF assms that(1,2)])
  qed
  have cores: "(reason ?r = Some (AuthorizedOnlyFor (recipient_email t)))
      = (map lower_ascii stored \<noteq> map lower_ascii claimed)"
    if "faithful_on_ascii toLowerCase"
      and "recipient_email t = before @ stored @ after" and "blank before" and "blank after"
      and "ascii stored" and "trimmed stored"
      and "em = before' @ claimed @ after'" and "blank before'" and "blank after'"
      and "ascii claimed" and "trimmed claimed"
  proof -
    from that have "trim (toLowerCase (recipient_email t)) = map lower_ascii stored"
      and "trim (toLowerCase em) = map lower_ascii claimed"
      by (simp_all add: normalise_padded)
    with compared show ?thesis
      by simp
  qed
  from compared passes cores show ?thesis
    by blast
qed

text \<open>
  The example of the specification: the token is bound to \<open>User@Example.com\<close>. The claimed
  email \<open>user@example.com\<close> with a space on each side is accepted, and so is the same
  address followed by a no-break space; \<open>uzer@example.com\<close> is refused.
\<close>

theorem verify_email_comparison_witness:
  "valid (fst (run healthy (verifyDownloadToken ascii_toLowerCase (js ''T1'')
            (js '' user@example.com '') None None 5) sample_db))
   \<and> valid (fst (run healthy (verifyDownloadToken ascii_toLowerCase (js ''T1'')
            (js ''user@example.com'' @ [0xA0]) None None 5) sample_db))
   \<and> reason (fst (run healthy (verifyDownloadToken ascii_toLowerCase (js ''T1'')
            (js ''uzer@example.com'') None None 5) sample_db))
       = Some (AuthorizedOnlyFor (js ''User@Example.com''))
   \<and> recipient_email sample_row = js ''User@Example.com''"
proof -
  let ?t = "join sample_db sample_row"
  have lookup: "fst (exec (SelectActiveToken (js ''T1'')) (healthy (SelectActiveToken (js ''T1''))) sample_db)
     = Resolved (Some ?t) False"
    by (simp add: healthy_def sample_db_def sample_row_def)
  have fresh: "\<not> 5 > expires_at ?t"
    by (simp add: sample_eval)
  have rest: "download_count ?t < max_downloads ?t" "project_documents ?t \<noteq> None"
    "healthy (UpdateToken (row_id ?t) (increment ?t 5)) \<noteq> Raises"
    by (simp_all add: sample_eval healthy_def)
  have stored: "recipient_email ?t = js ''User@Example.com''"
    by (simp add: sample_eval)
  have faithful: "faithful_on_ascii ascii_toLowerCase"
    by (simp add: faithful_on_ascii_def ascii_toLowerCase_def)
  have "trim (ascii_toLowerCase (recipient_email ?t))
      = trim (ascii_toLowerCase (js '' user@example.com ''))"
    by (simp add: sample_eval)
  with rest have first: "valid (fst (run healthy (verifyDownloadToken ascii_toLowerCase (js ''T1'')
            (js '' user@example.com '') None None 5) sample_db))"
    using verify_email_comparison [where env = healthy and tok = "js ''T1''" and db = sample_db
        and toLowerCase = ascii_toLowerCase and em = "js '' user@example.com ''"
        and ip = None and ua = None, OF lookup fresh]
    by blast
  have "trim (ascii_toLowerCase (recipient_email ?t))
      = trim (ascii_toLowerCase (js ''user@example.com'' @ [0xA0]))"
    by (simp add: sample_eval)
  with rest have second: "valid (fst (run healthy (verifyDownloadToken ascii_toLowerCase (js ''T1'')
            (js ''user@example.com'' @ [0xA0]) None None 5) sample_db))"
    using verify_email_comparison [where env = healthy and tok = "js ''T1''" and db = sample_db
        and toLowerCase = ascii_toLowerCase and em = "js ''user@example.com'' @ [0xA0]"
        and ip = None and ua = None, OF lookup fresh]
    by blast
  have "recipient_email ?t = [] @ js ''User@Example.com'' @ []"
    and "blank []" and "ascii (js ''User@Example.com'')" and "trimmed (js ''User@Example.com'')"
    and "js ''uzer@example.com'' = [] @ js ''uzer@example.com'' @ []"
    and "ascii (js ''uzer@example.com'')" and "trimmed (js ''uzer@example.com'')"
    and "map lower_ascii (js ''User@Example.com'') \<noteq> map lower_ascii (js ''uzer@example.com'')"
    by (simp_all add: sample_eval blank_def ascii_def trimmed_def)
  with faithful
  have "reason (fst (run healthy (verifyDownloadToken ascii_toLowerCase (js ''T1'')
            (js ''uzer@example.com'') None None 5) sample_db))
       = Some (AuthorizedOnlyFor (recipient_email ?t))"
    using verify_email_comparison [where env = healthy and tok = "js ''T1''" and db = sample_db
        and toLowerCase = ascii_toLowerCase and em = "js ''uzer@example.com''"
        and ip = None and ua = None and before = "[]" and after = "[]" and before' = "[]"
        and after' = "[]" and stored = "js ''User@Example.com''"
        and claimed = "js ''uzer@example.com''", OF lookup fresh]
    by blast
  with stored have third: "reason (fst (run healthy (verifyDownloadToken ascii_toLowerCase (js ''T1'')
            (js ''uzer@example.com'') None None 5) sample_db))
       = Some (AuthorizedOnlyFor (js ''User@Example.com''))"
    by simp
  from first second third show ?thesis
    by (simp add: sample_row_def)
qed

subsection \<open>The token record in failure results (C10)\<close>



subsection \<open>Revocation (C8)\<close>

lemma run_revokeDownloadToken:
  "run env (revokeDownloadToken tokenId now) db =
     (env (UpdateToken tokenId (deactivation now)) = Healthy,
      if env (UpdateToken tokenId (deactivation now)) = Healthy
      then db\<lparr>secure_download_tokens :=
                map (\<lambda>r. if row_id r = tokenId then r\<lparr>is_active := False, updated_at := now\<rparr> else r)
                  (secure_download_tokens db)\<rparr>
      else db)"
  by (cases "env (UpdateToken tokenId (deactivation now))")
     (simp_all add: revokeDownloadToken_def apply_patch_def deactivation_def)

lemma no_active_row_after_deactivation:
  "filter (\<lambda>r. row_id r = i \<and> is_active r)
     (map (\<lambda>r. if row_id r = i then r\<lparr>is_active := False, updated_at := t\<rparr> else r) rows) = []"
  by (induction rows) simp_all

text \<open>
  Claim C8. \<open>revokeDownloadToken\<close> returns a boolean however the update ends, also when the
  promise is rejected: \<open>true\<close> exactly when the datastore carried the update out. On a
  healthy datastore a revocation returns \<open>true\<close>, a second one of the same id returns
  \<open>true\<close> again and leaves every \<open>is_active\<close> flag as the first left it, with no active
  row of that id. No revocation changes a \<open>download_count\<close>.
\<close>

theorem revokeDownloadToken_idempotent:
  "fst (run env (revokeDownloadToken tokenId now) db)
     = (env (UpdateToken tokenId (deactivation now)) = Healthy)
   \<and> map download_count (secure_download_tokens (snd (run env (revokeDownloadToken tokenId now) db)))
       = map download_count (secure_download_tokens db)
   \<and> fst (run healthy (revokeDownloadToken tokenId now) db)
   \<and> fst (run healthy (revokeDownloadToken tokenId now')
             (snd (run healthy (revokeDownloadToken tokenId now) db)))
   \<and> map is_active (secure_download_tokens
         (snd (run healthy (revokeDownloadToken tokenId now')
                 (snd (run healthy (revokeDownloadToken tokenId now) db)))))
       = map is_active (secure_download_tokens (snd (run healthy (revokeDownloadToken tokenId now) db)))
   \<and> filter (\<lambda>r. row_id r = tokenId \<and> is_active r)
         (secure_download_tokens (snd (run healthy (revokeDownloadToken tokenId now) db))) = []"
proof -
  have count: "map download_count (secure_download_tokens (snd (run env (revokeDownloadToken tokenId now) db)))
       = map download_count (secure_download_tokens db)"
    by (simp add: run_revokeDownloadToken)
  have inactive: "filter (\<lambda>r. row_id r = tokenId \<and> is_active r)
         (secure_download_tokens (snd (run healthy (revokeDownloadToken tokenId now) db))) = []"
    by (simp add: run_revokeDownloadToken healthy_def no_active_row_after_deactivation)
  have again: "map is_active (secure_download_tokens
         (snd (run healthy (revokeDownloadToken tokenId now')
                 (snd (run healthy (revokeDownloadToken tokenId now) db)))))
       = map is_active (secure_download_tokens (snd (run healthy (revokeDownloadToken tokenId now) db)))"
    by (simp add: run_revokeDownloadToken healthy_def comp_def)
  show ?thesis
    using count inactive again by (simp add: run_revokeDownloadToken healthy_def)
qed

text \<open>Revoking the sample token twice.\<close>

theorem revokeDownloadToken_idempotent_witness:
  "fst (run healthy (revokeDownloadToken (js ''id1'') 7) sample_db)
   \<and> fst (run healthy (revokeDownloadToken (js ''id1'') 8)
            (snd (run healthy (revokeDownloadToken (js ''id1'') 7) sample_db)))
   \<and> map download_count
        (secure_download_tokens (snd (run healthy (revokeDownloadToken (js ''id1'') 7) sample_db))) = [0]
   \<and> map is_active
        (secure_download_tokens (snd (run healthy (revokeDownloadToken (js ''id1'') 7) sample_db))) = [False]"
  using revokeDownloadToken_idempotent [of healthy "js ''id1''" 7 sample_db 8]
  by (simp add: run_revokeDownloadToken healthy_def sample_db_def sample_row_def)

subsection \<open>Lazy deactivation (C4)\<close>

lemma join_fields [simp]:
  "row_id (join db r) = row_id r"
  "token (join db r) = token r"
  "expires_at (join db r) = expires_at r"
  "recipient_email (join db r) = recipient_email r"
  "max_downloads (join db r) = max_downloads r"
  "download_count (join db r) = download_count r"
  "is_active (join db r) = is_active r"
  by (simp_all add: join_def token_row.defs)

lemma apply_patch_fields [simp]:
  "row_id (apply_patch p r) = row_id r"
  "token (apply_patch p r) = token r"
  "max_downloads (apply_patch p r) = max_downloads r"
  by (simp_all add: apply_patch_def split: option.splits)

lemma is_active_deactivation [simp]: "\<not> is_active (apply_patch (deactivation now) r)"
  by (simp add: apply_patch_def deactivation_def)

lemma select_unique_active:
  assumes "filter (\<lambda>x. token x = tok) (secure_download_tokens db) = [r]" and "is_active r"
  shows "exec (SelectActiveToken tok) Healthy db = (Resolved (Some (join db r)) False, db)"
proof -
  have "filter (\<lambda>x. token x = tok \<and> is_active x) (secure_download_tokens db)
          = filter is_active (filter (\<lambda>x. token x = tok) (secure_download_tokens db))"
    by simp
  also have "\<dots> = [r]"
    using assms by simp
  finally show ?thesis
    by simp
qed

lemma no_active_token_after_deactivation:
  assumes "filter (\<lambda>x. token x = tok) rows = [r]"
  shows "filter (\<lambda>x. token x = tok \<and> is_active x)
           (map (\<lambda>x. if row_id x = row_id r then apply_patch (deactivation now) x else x) rows) = []"
proof -
  have "x = r" if "x \<in> set rows" and "token x = tok" for x
  proof -
    from that have "x \<in> set (filter (\<lambda>x. token x = tok) rows)"
      by simp
    with assms show ?thesis
      by simp
  qed
  then show ?thesis
    by (auto simp add: filter_empty_conv)
qed

text \<open>
  Claim C4. Let \<open>r\<close> be the only row with the token string \<open>tok\<close> (token strings are unique),
  active, with \<open>expires_at\<close> strictly before the clock of the call, on a datastore that
  carries out the lookup and the deactivating update. Then the verification returns the
  \<open>expired\<close> failure with the row, afterwards no row with that token string is active, and
  a second verification with the same token string, whatever its other arguments,
  returns the failure of the lookup (\<open>invalid_or_expired\<close>).
\<close>

theorem verify_expired_lazy_deactivation:
  assumes "filter (\<lambda>x. token x = tok) (secure_download_tokens db) = [r]"
    and "is_active r"
    and "now > expires_at r"
    and "env (SelectActiveToken tok) = Healthy"
    and "env (UpdateToken (row_id r) (deactivation now)) = Healthy"
    and "env' (SelectActiveToken tok) \<noteq> Raises"
  shows "fst (run env (verifyDownloadToken toLowerCase tok em ip ua now) db)
           = \<lparr>valid = False, document = None, reason = Some (ExpiredOn (expires_at r)),
              tokenData = Some (join db r)\<rparr>
       \<and> filter (\<lambda>x. token x = tok \<and> is_active x)
           (secure_download_tokens (snd (run env (verifyDownloadToken toLowerCase tok em ip ua now) db))) = []
       \<and> fst (run env' (verifyDownloadToken toLowerCase tok em' ip' ua' now')
                (snd (run env (verifyDownloadToken toLowerCase tok em ip ua now) db)))
           = \<lparr>valid = False, document = None, reason = Some InvalidLink, tokenData = None\<rparr>"
proof -
  let ?db1 = "snd (run env (verifyDownloadToken toLowerCase tok em ip ua now) db)"
  have lookup: "fst (exec (SelectActiveToken tok) (env (SelectActiveToken tok)) db)
                  = Resolved (Some (join db r)) False"
    using select_unique_active [OF assms(1,2)] assms(4) by simp
  have late: "now > expires_at (join db r)"
    using assms(3) by simp
  have first: "run env (verifyDownloadToken toLowerCase tok em ip ua now) db =
      (failed (ExpiredOn (expires_at r)) (Some (join db r)),
       updated env (row_id r) (deactivation now)
         (audit env (entry toLowerCase (Some (row_id r)) em ip ua now (Some expired)) db))"
    using run_verify_expired [where env = env and tok = tok and db = db, OF lookup late] assms(5)
    by simp
  have gone: "filter (\<lambda>x. token x = tok \<and> is_active x) (secure_download_tokens ?db1) = []"
    using assms(5) no_active_token_after_deactivation [OF assms(1)]
    by (simp add: first secure_download_tokens_updated secure_download_tokens_audit)
  have "fst (exec (SelectActiveToken tok) (env' (SelectActiveToken tok)) ?db1) = Resolved None True"
    using assms(6) gone by (cases "env' (SelectActiveToken tok)") simp_all
  then have second: "run env' (verifyDownloadToken toLowerCase tok em' ip' ua' now') ?db1 =
      (failed InvalidLink None, audit env' (entry toLowerCase None em' ip' ua' now' (Some invalid_or_expired)) ?db1)"
    by (rule run_verify_not_found) simp
  then have "fst (run env' (verifyDownloadToken toLowerCase tok em' ip' ua' now') ?db1) = failed InvalidLink None"
    by simp
  with gone show ?thesis
    by (simp add: first failed_def)
qed

text \<open>The sample token expires at 1000; it is verified at 2000 and again at 2001.\<close>

theorem verify_expired_lazy_deactivation_witness:
  "reason (fst (run healthy (verifyDownloadToken ascii_toLowerCase (js ''T1'') (js ''user@example.com'') None None 2000) sample_db))
     = Some (ExpiredOn 1000)
   \<and> map is_active (secure_download_tokens
        (snd (run healthy (verifyDownloadToken ascii_toLowerCase (js ''T1'') (js ''user@example.com'') None None 2000) sample_db)))
     = [False]
   \<and> reason (fst (run healthy (verifyDownloadToken ascii_toLowerCase (js ''T1'') (js ''user@example.com'') None None 2001)
        (snd (run healthy (verifyDownloadToken ascii_toLowerCase (js ''T1'') (js ''user@example.com'') None None 2000) sample_db))))
     = Some InvalidLink"
proof -
  have "filter (\<lambda>x. token x = (js ''T1'')) (secure_download_tokens sample_db) = [sample_row]"
    and "is_active sample_row" and "2000 > expires_at sample_row"
    and "healthy (SelectActiveToken (js ''T1'')) = Healthy"
    and "healthy (UpdateToken (row_id sample_row) (deactivation 2000)) = Healthy"
    and "healthy (SelectActiveToken (js ''T1'')) \<noteq> Raises"
    by (simp_all add: sample_db_def sample_row_def healthy_def)
  from verify_expired_lazy_deactivation
      [where env = healthy and env' = healthy and tok = "js ''T1''" and db = sample_db
         and r = sample_row and now = 2000 and em = "js ''user@example.com''" and ip = None
         and ua = None and em' = "js ''user@example.com''" and ip' = None and ua' = None
         and now' = 2001, OF this]
  have "reason (fst (run healthy (verifyDownloadToken ascii_toLowerCase (js ''T1'') (js ''user@example.com'') None None 2000) sample_db))
     = Some (ExpiredOn 1000)"
    and "reason (fst (run healthy (verifyDownloadToken ascii_toLowerCase (js ''T1'') (js ''user@example.com'') None None 2001)
        (snd (run healthy (verifyDownloadToken ascii_toLowerCase (js ''T1'') (js ''user@example.com'') None None 2000) sample_db))))
     = Some InvalidLink"
    by (simp_all add: sample_row_def)
  moreover have "map is_active (secure_download_tokens
        (snd (run healthy (verifyDownloadToken ascii_toLowerCase (js ''T1'') (js ''user@example.com'') None None 2000) sample_db)))
     = [False]"
    by (simp add: verifyDownloadToken_def logDownloadAttempt_def Let_def healthy_def sample_eval
          apply_patch_def)
  ultimately show ?thesis
    by simp
qed

subsection \<open>Email syntax (C7)\<close>

lemma regex_test_OneOrMore:
  "regex_test ((cl, OneOrMore) # items) s
     = (\<exists>u v. s = u @ v \<and> u \<noteq> [] \<and> (\<forall>c\<in>set u. in_class cl c) \<and> regex_test items v)"
proof (induction s)
  case Nil
  then show ?case by simp
next
  case (Cons c cs)
  show ?case
  proof
    assume "regex_test ((cl, OneOrMore) # items) (c # cs)"
    then have c: "in_class cl c"
      and rest: "regex_test ((cl, OneOrMore) # items) cs \<or> regex_test items cs"
      by simp_all
    from rest show "\<exists>u v. c # cs = u @ v \<and> u \<noteq> [] \<and> (\<forall>c\<in>set u. in_class cl c) \<and> regex_test items v"
    proof
      assume "regex_test ((cl, OneOrMore) # items) cs"
      then obtain u v where "cs = u @ v" "\<forall>c\<in>set u. in_class cl c" "regex_test items v"
        using Cons.IH by blast
      with c have "c # cs = (c # u) @ v \<and> c # u \<noteq> [] \<and> (\<forall>c\<in>set (c # u). in_class cl c)
          \<and> regex_test items v"
        by simp
      then show ?thesis by blast
    next
      assume "regex_test items cs"
      with c have "c # cs = [c] @ cs \<and> [c] \<noteq> [] \<and> (\<forall>c\<in>set [c]. in_class cl c)
          \<and> regex_test items cs"
        by simp
      then show ?thesis by blast
    qed
  next
    assume "\<exists>u v. c # cs = u @ v \<and> u \<noteq> [] \<and> (\<forall>c\<in>set u. in_class cl c) \<and> regex_test items v"
    then obtain u v where uv: "c # cs = u @ v" "u \<noteq> []" "\<forall>c\<in>set u. in_class cl c"
      "regex_test items v"
      by blast
    then obtain u' where u: "u = c # u'" and cs: "cs = u' @ v"
      by (cases u) auto
    show "regex_test ((cl, OneOrMore) # items) (c # cs)"
    proof (cases "u' = []")
      case True
      with uv u cs show ?thesis by simp
    next
      case False
      with uv u cs have "cs = u' @ v \<and> u' \<noteq> [] \<and> (\<forall>c\<in>set u'. in_class cl c)
          \<and> regex_test items v"
        by simp
      then have "regex_test ((cl, OneOrMore) # items) cs"
        using Cons.IH by blast
      with uv u show ?thesis by simp
    qed
  qed
qed

lemma regex_test_Once:
  "regex_test ((cl, Once) # items) s = (\<exists>c v. s = c # v \<and> in_class cl c \<and> regex_test items v)"
  by (cases s) simp_all

lemma regex_test_emailRegex:
  "regex_test emailRegex s
     = (\<exists>l d1 d2. s = l @ at_sign # d1 @ full_stop # d2 \<and> l \<noteq> [] \<and> d1 \<noteq> [] \<and> d2 \<noteq> []
          \<and> (\<forall>c\<in>set l. in_class NotSpaceOrAt c) \<and> (\<forall>c\<in>set d1. in_class NotSpaceOrAt c)
          \<and> (\<forall>c\<in>set d2. in_class NotSpaceOrAt c))"
  unfolding emailRegex_def regex_test_OneOrMore regex_test_Once
  by (simp add: ex_simps [symmetric] del: ex_simps) (auto 0 3)

lemma dot_in_class: "\<not> is_space full_stop" "full_stop \<noteq> at_sign"
  by (simp_all add: is_space_def full_stop_def at_sign_def)

text \<open>
  Claim C7 as stated fails twice: a string with a space on each side is accepted, because
  the test runs on the trimmed string, and \<open>a@b.\<close>, whose domain part contains a dot, is
  rejected, because the expression wants a character on each side of the dot.
\<close>

theorem validateEmail_counterexample:
  "validateEmail (js '' user@example.com '') \<and> \<not> validateEmail (js ''a@b.'')"
  by (simp add: validateEmail_def emailRegex_def trim_def is_space_def js_def at_sign_def
        full_stop_def)

text \<open>
  Claim C7, amended. \<open>validateEmail\<close> returns true for a string exactly when the string
  without its leading and trailing white space contains no white space and has exactly
  one \<open>@\<close>, which parts a non-empty local part from a domain part that contains a dot
  with at least one character before it and at least one after it.
\<close>

theorem validateEmail_after_trim:
  "validateEmail email
     = (\<exists>local domain.
          trim email = local @ [at_sign] @ domain \<and> local \<noteq> []
          \<and> (\<forall>c\<in>set (local @ domain). \<not> is_space c \<and> c \<noteq> at_sign)
          \<and> (\<exists>d1 d2. domain = d1 @ [full_stop] @ d2 \<and> d1 \<noteq> [] \<and> d2 \<noteq> []))"
  (is "_ = ?shape")
proof
  assume "validateEmail email"
  then have "\<exists>l d1 d2. trim email = l @ at_sign # d1 @ full_stop # d2 \<and> l \<noteq> [] \<and> d1 \<noteq> []
          \<and> d2 \<noteq> [] \<and> (\<forall>c\<in>set l. in_class NotSpaceOrAt c)
          \<and> (\<forall>c\<in>set d1. in_class NotSpaceOrAt c) \<and> (\<forall>c\<in>set d2. in_class NotSpaceOrAt c)"
    by (simp only: validateEmail_def regex_test_emailRegex)
  then obtain l d1 d2 where parts: "trim email = l @ at_sign # d1 @ full_stop # d2"
    "l \<noteq> []" "d1 \<noteq> []" "d2 \<noteq> []"
    "\<forall>c\<in>set l. in_class NotSpaceOrAt c" "\<forall>c\<in>set d1. in_class NotSpaceOrAt c"
    "\<forall>c\<in>set d2. in_class NotSpaceOrAt c"
    by (elim exE conjE)
  have whole: "trim email = l @ [at_sign] @ (d1 @ [full_stop] @ d2)"
    using parts(1) by simp
  have clean: "\<forall>c\<in>set (l @ (d1 @ [full_stop] @ d2)). \<not> is_space c \<and> c \<noteq> at_sign"
    using parts(5-7) by (simp add: ball_Un dot_in_class)
  have "d1 @ [full_stop] @ d2 = d1 @ [full_stop] @ d2 \<and> d1 \<noteq> [] \<and> d2 \<noteq> []"
    using parts(3,4) by simp
  then have dot: "\<exists>e1 e2. d1 @ [full_stop] @ d2 = e1 @ [full_stop] @ e2 \<and> e1 \<noteq> [] \<and> e2 \<noteq> []"
    by (intro exI)
  show ?shape
    by (intro exI [of _ l] exI [of _ "d1 @ [full_stop] @ d2"] conjI whole parts(2) clean dot)
next
  assume ?shape
  then obtain l dom d1 d2 where ld: "trim email = l @ [at_sign] @ dom" "l \<noteq> []"
    "\<forall>c\<in>set (l @ dom). \<not> is_space c \<and> c \<noteq> at_sign"
    and d: "dom = d1 @ [full_stop] @ d2" "d1 \<noteq> []" "d2 \<noteq> []"
    by (elim exE conjE)
  have "trim email = l @ at_sign # d1 @ full_stop # d2 \<and> l \<noteq> [] \<and> d1 \<noteq> [] \<and> d2 \<noteq> []
          \<and> (\<forall>c\<in>set l. in_class NotSpaceOrAt c) \<and> (\<forall>c\<in>set d1. in_class NotSpaceOrAt c)
          \<and> (\<forall>c\<in>set d2. in_class NotSpaceOrAt c)"
    using ld d by (simp add: ball_Un)
  then have "\<exists>l d1 d2. trim email = l @ at_sign # d1 @ full_stop # d2 \<and> l \<noteq> [] \<and> d1 \<noteq> []
          \<and> d2 \<noteq> [] \<and> (\<forall>c\<in>set l. in_class NotSpaceOrAt c)
          \<and> (\<forall>c\<in>set d1. in_class NotSpaceOrAt c) \<and> (\<forall>c\<in>set d2. in_class NotSpaceOrAt c)"
    by (intro exI)
  then show "validateEmail email"
    by (simp only: validateEmail_def regex_test_emailRegex)
qed


text \<open>
  A valid address with a space on each side; and an address with a no-break space inside,
  which is white space and makes the test fail.
\<close>

theorem validateEmail_after_trim_witness:
  "validateEmail (js '' a@b.c '') \<and> trim (js '' a@b.c '') = js ''a@b.c''
   \<and> \<not> validateEmail (js ''a'' @ [0xA0] @ js ''b@c.d'')"
proof -
  have t: "trim (js '' a@b.c '') = js ''a@b.c''"
    by (simp add: trim_def is_space_def js_def)
  have "js ''b.c'' = js ''b'' @ [full_stop] @ js ''c'' \<and> js ''b'' \<noteq> [] \<and> js ''c'' \<noteq> []"
    by (simp add: js_def full_stop_def)
  then have dot: "\<exists>d1 d2. js ''b.c'' = d1 @ [full_stop] @ d2 \<and> d1 \<noteq> [] \<and> d2 \<noteq> []"
    by (intro exI)
  have "trim (js '' a@b.c '') = js ''a'' @ [at_sign] @ js ''b.c'' \<and> js ''a'' \<noteq> []
      \<and> (\<forall>c\<in>set (js ''a'' @ js ''b.c''). \<not> is_space c \<and> c \<noteq> at_sign)
      \<and> (\<exists>d1 d2. js ''b.c'' = d1 @ [full_stop] @ d2 \<and> d1 \<noteq> [] \<and> d2 \<noteq> [])"
    using dot by (simp add: t) (simp add: is_space_def js_def at_sign_def)
  then have "\<exists>local domain.
          trim (js '' a@b.c '') = local @ [at_sign] @ domain \<and> local \<noteq> []
          \<and> (\<forall>c\<in>set (local @ domain). \<not> is_space c \<and> c \<noteq> at_sign)
          \<and> (\<exists>d1 d2. domain = d1 @ [full_stop] @ d2 \<and> d1 \<noteq> [] \<and> d2 \<noteq> [])"
    by (intro exI)
  then have "validateEmail (js '' a@b.c '')"
    by (simp only: validateEmail_after_trim [of "js '' a@b.c ''"])
  moreover have "\<not> validateEmail (js ''a'' @ [0xA0] @ js ''b@c.d'')"
    by (simp add: validateEmail_def emailRegex_def trim_def is_space_def js_def at_sign_def
          full_stop_def)
  ultimately show ?thesis
    using t by simp
qed

subsection \<open>Token generation (C6)\<close>

text \<open>
  One round of the loop: whether it ends with a reference, and the rows of the table
  after it.
\<close>

lemma store_and_link_cases:
  "store_and_link toLowerCase origin tok doc recipientEmail orderId expiresAtDate finalConfig now env db =
     (if expiresAtDate = None \<or> store_fault env = Raises then (Thrown, db)
      else if store_fault env = Healthy \<and> tok \<notin> set (map token (secure_download_tokens db))
      then ((if linkable origin recipientEmail
             then Returned (Some
                    \<lparr>documentId = doc_id doc, documentName = name doc,
                     secureUrl = the origin @ js ''/secure-download/'' @ tok @ js ''?email=''
                                   @ the (encodeURIComponent recipientEmail),
                     expiresAt = the expiresAtDate\<rparr>)
             else Thrown),
            db\<lparr>secure_download_tokens := secure_download_tokens db @
                 [\<lparr>row_id = new_id env, token = tok, document_id = doc_id doc,
                   recipient_email = trim (toLowerCase recipientEmail), order_id = orderId,
                   expires_at = the expiresAtDate,
                   max_downloads = (case maxDownloads finalConfig of
                                      Some m \<Rightarrow> m | None \<Rightarrow> default_max_downloads env),
                   download_count = 0, is_active = True, created_at = now, updated_at = now\<rparr>]\<rparr>)
      else (Returned None, db))"
  by (cases expiresAtDate; cases "store_fault env"; cases origin;
      cases "encodeURIComponent recipientEmail")
     (simp_all add: store_and_link_def linkable_def)

lemma generate_for_document_rows:
  "secure_download_tokens
     (snd (generate_for_document toLowerCase origin doc recipientEmail orderId expiresAtDate
             finalConfig now env db))
     = (if rpc env \<noteq> RpcRejected \<and> expiresAtDate \<noteq> None \<and> store_fault env = Healthy
           \<and> chosen_token env \<notin> set (map token (secure_download_tokens db))
        then secure_download_tokens db @
               [\<lparr>row_id = new_id env, token = chosen_token env, document_id = doc_id doc,
                 recipient_email = trim (toLowerCase recipientEmail), order_id = orderId,
                 expires_at = the expiresAtDate,
                 max_downloads = (case maxDownloads finalConfig of
                                    Some m \<Rightarrow> m | None \<Rightarrow> default_max_downloads env),
                 download_count = 0, is_active = True, created_at = now, updated_at = now\<rparr>]
        else secure_download_tokens db)"
  by (cases "rpc env")
     (simp_all add: generate_for_document_def chosen_token_def store_and_link_cases)

lemma generate_for_document_attempts:
  "download_attempts
     (snd (generate_for_document toLowerCase origin doc recipientEmail orderId expiresAtDate
             finalConfig now env db))
     = download_attempts db"
  by (cases "rpc env")
     (simp_all add: generate_for_document_def store_and_link_cases)

lemma generate_for_document_reference:
  "fst (generate_for_document toLowerCase origin doc recipientEmail orderId expiresAtDate
          finalConfig now env db)
     = (if rpc env \<noteq> RpcRejected \<and> expiresAtDate \<noteq> None \<and> store_fault env = Healthy
           \<and> chosen_token env \<notin> set (map token (secure_download_tokens db))
           \<and> linkable origin recipientEmail
        then Returned (Some
               \<lparr>documentId = doc_id doc, documentName = name doc,
                secureUrl = the origin @ js ''/secure-download/'' @ chosen_token env @ js ''?email=''
                              @ the (encodeURIComponent recipientEmail),
                expiresAt = the expiresAtDate\<rparr>)
        else if rpc env \<noteq> RpcRejected \<and> expiresAtDate \<noteq> None \<and> store_fault env \<noteq> Raises
                \<and> \<not> (store_fault env = Healthy
                       \<and> chosen_token env \<notin> set (map token (secure_download_tokens db)))
        then Returned None
        else Thrown)"
  by (cases "rpc env"; cases "store_fault env")
     (simp_all add: generate_for_document_def chosen_token_def store_and_link_cases)

lemma generate_loop_stored:
  "map documentId (fst (generate_loop toLowerCase origin recipientEmail orderId expiresAtDate
        finalConfig now envs i docs urls db))
     = map documentId urls
         @ (if linkable origin recipientEmail
            then map doc_id (stored_documents expiresAtDate envs i docs
                               (map token (secure_download_tokens db)))
            else [])
   \<and> map document_id (secure_download_tokens
         (snd (generate_loop toLowerCase origin recipientEmail orderId expiresAtDate finalConfig now
                 envs i docs urls db)))
     = map document_id (secure_download_tokens db)
         @ map doc_id (stored_documents expiresAtDate envs i docs
                         (map token (secure_download_tokens db)))"
proof (induction docs arbitrary: i urls db)
  case Nil
  then show ?case by simp
next
  case (Cons doc docs)
  let ?round = "generate_for_document toLowerCase origin doc recipientEmail orderId expiresAtDate
                  finalConfig now (envs i) db"
  obtain c db' where round: "?round = (c, db')"
    by (cases ?round)
  have c: "c = fst ?round" and db': "db' = snd ?round"
    by (simp_all add: round)
  note rows = generate_for_document_rows [of toLowerCase origin doc recipientEmail orderId
      expiresAtDate finalConfig now "envs i" db, folded db']
  note ref = generate_for_document_reference [of toLowerCase origin doc recipientEmail orderId
      expiresAtDate finalConfig now "envs i" db, folded c]
  show ?case
  proof (cases "rpc (envs i) \<noteq> RpcRejected \<and> expiresAtDate \<noteq> None
      \<and> store_fault (envs i) = Healthy
      \<and> chosen_token (envs i) \<notin> set (map token (secure_download_tokens db))")
    case stored: True
    show ?thesis
    proof (cases "linkable origin recipientEmail")
      case True
      with stored show ?thesis
        using rows ref by (simp add: round Cons.IH)
    next
      case False
      with stored show ?thesis
        using rows ref by (simp add: round Cons.IH)
    qed
  next
    case False
    then have same: "secure_download_tokens db' = secure_download_tokens db"
      using rows by auto
    from False have "c = Returned None \<or> c = Thrown"
      using ref by (auto split: if_splits)
    then have next_round: "generate_loop toLowerCase origin recipientEmail orderId expiresAtDate
        finalConfig now envs i (doc # docs) urls db
      = generate_loop toLowerCase origin recipientEmail orderId expiresAtDate
          finalConfig now envs (Suc i) docs urls db'"
      using round by auto
    from False have skipped: "stored_documents expiresAtDate envs i (doc # docs)
        (map token (secure_download_tokens db))
      = stored_documents expiresAtDate envs (Suc i) docs (map token (secure_download_tokens db))"
      by auto
    show ?thesis
      unfolding next_round skipped
      using Cons.IH [of "Suc i" urls db'] by (simp add: same)
  qed
qed


text \<open>
  Claim C6 as stated: one reference for every document whose row was stored. This fails
  where the link cannot be built after the insert (lines 104-105 and 140-141): the row is
  in the table, the exception is caught in line 150, and no reference is pushed. With
  every insert accepted, three rows are stored and no reference is returned, when the
  origin cannot be read, and when the recipient email is a surrogate standing alone,
  which \<open>encodeURIComponent\<close> refuses.
\<close>

theorem generate_orphan_rows_counterexample:
  "fst (generateSecureDownloadTokens ascii_toLowerCase plain_hours None 0 all_accepted three_docs
          (js ''Buyer@X.com'') (js ''O1'') no_config empty_db) = []
   \<and> map document_id (secure_download_tokens
        (snd (generateSecureDownloadTokens ascii_toLowerCase plain_hours None 0 all_accepted
                three_docs (js ''Buyer@X.com'') (js ''O1'') no_config empty_db)))
       = [js ''D1'', js ''D2'', js ''D3'']
   \<and> fst (generateSecureDownloadTokens ascii_toLowerCase plain_hours (Some (js ''https://shop'')) 0
            all_accepted three_docs lone_surrogate (js ''O1'') no_config empty_db) = []
   \<and> map document_id (secure_download_tokens
        (snd (generateSecureDownloadTokens ascii_toLowerCase plain_hours (Some (js ''https://shop'')) 0
                all_accepted three_docs lone_surrogate (js ''O1'') no_config empty_db)))
       = [js ''D1'', js ''D2'', js ''D3'']"
proof -
  have expiry: "plain_hours 0 (expirationHours (merge_config DEFAULT_CONFIG no_config)) = Some 259200000"
    by (simp add: plain_hours_def merge_config_def DEFAULT_CONFIG_def no_config_def)
  have stored: "map doc_id (stored_documents (Some 259200000) all_accepted 0 three_docs
      (map token (secure_download_tokens empty_db))) = [js ''D1'', js ''D2'', js ''D3'']"
    by (simp add: three_docs_def all_accepted_def second_refused_def empty_db_def
          chosen_token_def js_def)
  have unreadable: "\<not> linkable None (js ''Buyer@X.com'')"
    by (simp add: linkable_def)
  have refused: "\<not> linkable (Some (js ''https://shop'')) lone_surrogate"
    by (simp add: linkable_def lone_surrogate_def encodeURIComponent_def high_surrogate_def)
  have empty: "map document_id (secure_download_tokens empty_db) = []"
    by (simp add: empty_db_def)
  show ?thesis
    using generate_loop_stored [where toLowerCase = ascii_toLowerCase and origin = None
        and recipientEmail = "js ''Buyer@X.com''" and orderId = "js ''O1''"
        and expiresAtDate = "Some 259200000"
        and finalConfig = "merge_config DEFAULT_CONFIG no_config" and now = 0
        and envs = all_accepted and i = 0 and docs = three_docs and urls = "[]" and db = empty_db]
      generate_loop_stored [where toLowerCase = ascii_toLowerCase
        and origin = "Some (js ''https://shop'')"
        and recipientEmail = lone_surrogate and orderId = "js ''O1''"
        and expiresAtDate = "Some 259200000"
        and finalConfig = "merge_config DEFAULT_CONFIG no_config" and now = 0
        and envs = all_accepted and i = 0 and docs = three_docs and urls = "[]" and db = empty_db]
    unfolding generateSecureDownloadTokens_def Let_def expiry stored empty
    using unreadable refused by simp
qed

text \<open>
  Claim C6, amended. \<open>generateSecureDownloadTokens\<close> takes every document of the list in
  turn, whatever happened to the ones before it: a refused insert, or an exception of the
  round, ends that round only, and none leaves the function. The rows added to the table
  are, in order, those of the documents whose token could be obtained and whose row the
  datastore accepted, given a valid expiry date (\<open>stored_documents\<close>). The references
  returned are, in order, one for each of these documents when the link can be built,
  that is, when the origin can be read and \<open>encodeURIComponent\<close> takes the recipient
  email; when it cannot, the same rows are stored and no reference is returned.
\<close>

theorem generate_isolates_failures:
  "map documentId
     (fst (generateSecureDownloadTokens toLowerCase setHours origin now envs documents
             recipientEmail orderId config db))
     = (if linkable origin recipientEmail
        then map doc_id
               (stored_documents (setHours now (expirationHours (merge_config DEFAULT_CONFIG config)))
                  envs 0 documents (map token (secure_download_tokens db)))
        else [])
   \<and> map document_id (secure_download_tokens
         (snd (generateSecureDownloadTokens toLowerCase setHours origin now envs documents
                 recipientEmail orderId config db)))
     = map document_id (secure_download_tokens db)
         @ map doc_id
             (stored_documents (setHours now (expirationHours (merge_config DEFAULT_CONFIG config)))
                envs 0 documents (map token (secure_download_tokens db)))
   \<and> length (fst (generateSecureDownloadTokens toLowerCase setHours origin now envs documents
                    recipientEmail orderId config db))
     = (if linkable origin recipientEmail
        then length
               (stored_documents (setHours now (expirationHours (merge_config DEFAULT_CONFIG config)))
                  envs 0 documents (map token (secure_download_tokens db)))
        else 0)"
proof -
  let ?out = "generateSecureDownloadTokens toLowerCase setHours origin now envs documents
                recipientEmail orderId config db"
  let ?stored = "stored_documents (setHours now (expirationHours (merge_config DEFAULT_CONFIG config)))
                   envs 0 documents (map token (secure_download_tokens db))"
  have ids: "map documentId (fst ?out) = (if linkable origin recipientEmail then map doc_id ?stored else [])"
    and rows: "map document_id (secure_download_tokens (snd ?out))
      = map document_id (secure_download_tokens db) @ map doc_id ?stored"
    using generate_loop_stored [where urls = "[]" and i = 0 and db = db and docs = documents
        and toLowerCase = toLowerCase and origin = origin and recipientEmail = recipientEmail
        and orderId = orderId and finalConfig = "merge_config DEFAULT_CONFIG config" and now = now
        and envs = envs
        and expiresAtDate = "setHours now (expirationHours (merge_config DEFAULT_CONFIG config))"]
    by (simp_all add: generateSecureDownloadTokens_def Let_def)
  have "length (fst ?out) = (if linkable origin recipientEmail then length ?stored else 0)"
    using arg_cong [OF ids, of length] by (simp split: if_splits)
  with ids rows show ?thesis
    by (intro conjI)
qed

text \<open>
  Three documents, the insert of the second refused: two rows and two references, those
  of the first and the third document. With \<open>expirationHours\<close> undefined the expiry is
  an invalid date: no row is stored and no reference returned.
\<close>

theorem generate_isolates_failures_witness:
  "map documentId
     (fst (generateSecureDownloadTokens ascii_toLowerCase plain_hours (Some (js ''https://shop'')) 0
             second_refused three_docs (js ''Buyer@X.com'') (js ''O1'') no_config empty_db))
     = [js ''D1'', js ''D3'']
   \<and> map document_id (secure_download_tokens
        (snd (generateSecureDownloadTokens ascii_toLowerCase plain_hours (Some (js ''https://shop'')) 0
                second_refused three_docs (js ''Buyer@X.com'') (js ''O1'') no_config empty_db)))
     = [js ''D1'', js ''D3'']
   \<and> length
        (fst (generateSecureDownloadTokens ascii_toLowerCase plain_hours (Some (js ''https://shop'')) 0
                second_refused three_docs (js ''Buyer@X.com'') (js ''O1'') no_config empty_db)) = 2
   \<and> generateSecureDownloadTokens ascii_toLowerCase plain_hours (Some (js ''https://shop'')) 0
         all_accepted three_docs (js ''Buyer@X.com'') (js ''O1'') undefined_hours empty_db
     = ([], empty_db)"
proof -
  have expiry: "plain_hours 0 (expirationHours (merge_config DEFAULT_CONFIG no_config)) = Some 259200000"
    by (simp add: plain_hours_def merge_config_def DEFAULT_CONFIG_def no_config_def)
  have stored: "stored_documents (Some 259200000) second_refused 0 three_docs
      (map token (secure_download_tokens empty_db))
      = [\<lparr>doc_id = js ''D1'', name = js ''a'', url = js ''u1''\<rparr>,
         \<lparr>doc_id = js ''D3'', name = js ''c'', url = js ''u3''\<rparr>]"
    by (simp add: three_docs_def second_refused_def empty_db_def chosen_token_def js_def)
  have encoded: "encodeURIComponent (js ''Buyer@X.com'') \<noteq> None"
    by (simp add: encodeURIComponent_def js_def high_surrogate_def low_surrogate_def)
  then have link: "linkable (Some (js ''https://shop'')) (js ''Buyer@X.com'')"
    by (simp add: linkable_def)
  have empty: "map document_id (secure_download_tokens empty_db) = []"
    by (simp add: empty_db_def)
  have valid_expiry: "map documentId
     (fst (generateSecureDownloadTokens ascii_toLowerCase plain_hours (Some (js ''https://shop'')) 0
             second_refused three_docs (js ''Buyer@X.com'') (js ''O1'') no_config empty_db))
     = [js ''D1'', js ''D3'']
   \<and> map document_id (secure_download_tokens
        (snd (generateSecureDownloadTokens ascii_toLowerCase plain_hours (Some (js ''https://shop'')) 0
                second_refused three_docs (js ''Buyer@X.com'') (js ''O1'') no_config empty_db)))
     = [js ''D1'', js ''D3'']
   \<and> length
        (fst (generateSecureDownloadTokens ascii_toLowerCase plain_hours (Some (js ''https://shop'')) 0
                second_refused three_docs (js ''Buyer@X.com'') (js ''O1'') no_config empty_db)) = 2"
    using generate_isolates_failures [where toLowerCase = ascii_toLowerCase
        and setHours = plain_hours and origin = "Some (js ''https://shop'')" and now = 0
        and envs = second_refused and documents = three_docs
        and recipientEmail = "js ''Buyer@X.com''" and orderId = "js ''O1''"
        and config = no_config and db = empty_db]
    unfolding expiry stored empty
    using link by simp
  have invalid: "plain_hours 0 (expirationHours (merge_config DEFAULT_CONFIG undefined_hours)) = None"
    by (simp add: plain_hours_def merge_config_def DEFAULT_CONFIG_def undefined_hours_def)
  have nothing_stored: "stored_documents None all_accepted 0 three_docs
      (map token (secure_download_tokens empty_db)) = []"
    by (simp add: three_docs_def)
  let ?out = "generateSecureDownloadTokens ascii_toLowerCase plain_hours (Some (js ''https://shop'')) 0
         all_accepted three_docs (js ''Buyer@X.com'') (js ''O1'') undefined_hours empty_db"
  have "fst ?out = [] \<and> secure_download_tokens (snd ?out) = []"
    using generate_isolates_failures [where toLowerCase = ascii_toLowerCase
        and setHours = plain_hours and origin = "Some (js ''https://shop'')" and now = 0
        and envs = all_accepted and documents = three_docs
        and recipientEmail = "js ''Buyer@X.com''" and orderId = "js ''O1''"
        and config = undefined_hours and db = empty_db]
    unfolding invalid nothing_stored empty
    using link by simp
  moreover have "download_attempts (snd ?out) = [] \<and> documents_table (snd ?out) = []"
    by (simp add: generateSecureDownloadTokens_def Let_def invalid three_docs_def
          generate_for_document_def store_and_link_def all_accepted_def second_refused_def
          empty_db_def)
  ultimately have "?out = ([], empty_db)"
    by (cases ?out) (simp add: empty_db_def)
  with valid_expiry show ?thesis
    by simp
qed

subsection \<open>The quota invariant (C1)\<close>

lemma download_count_apply_patch:
  "download_count (apply_patch p r)
     = (case set_download_count p of None \<Rightarrow> download_count r | Some n \<Rightarrow> n)"
  by (simp add: apply_patch_def split: option.splits)

lemma limits_exec:
  assumes "call_safe M c"
  shows "limits (snd (exec c f db)) = limits db"
proof (cases f)
  case Healthy
  with assms show ?thesis
    by (cases c) (simp_all add: limits_def comp_def split: list.splits cong: map_cong)
qed simp_all

lemma quota_invariant_exec:
  assumes "call_safe (limits db) c" and "quota_invariant db"
  shows "quota_invariant (snd (exec c f db))"
proof (cases f)
  case Healthy
  show ?thesis
  proof (cases c)
    case (UpdateToken i p)
    have "0 \<le> download_count (apply_patch p r)
        \<and> download_count (apply_patch p r) \<le> max_downloads (apply_patch p r)"
      if "r \<in> set (secure_download_tokens db)" and "row_id r = i" for r
    proof (cases "set_download_count p")
      case None
      with that assms(2) show ?thesis
        by (simp add: download_count_apply_patch quota_invariant_def list_all_iff)
    next
      case (Some n)
      from that have "(i, max_downloads r) \<in> set (limits db)"
        by (auto simp add: limits_def)
      with assms(1) UpdateToken Some show ?thesis
        by (simp add: download_count_apply_patch)
    qed
    then have "\<forall>r\<in>set (secure_download_tokens db).
        0 \<le> download_count (if row_id r = i then apply_patch p r else r)
        \<and> download_count (if row_id r = i then apply_patch p r else r)
            \<le> max_downloads (if row_id r = i then apply_patch p r else r)"
      using assms(2) by (simp add: quota_invariant_def list_all_iff)
    then have "list_all (\<lambda>r. 0 \<le> download_count r \<and> download_count r \<le> max_downloads r)
        (map (\<lambda>r. if row_id r = i then apply_patch p r else r) (secure_download_tokens db))"
      by (subst list.pred_map) (simp add: comp_def list_all_iff)
    with Healthy UpdateToken show ?thesis
      by (simp add: quota_invariant_def)
  next
    case (InsertToken r)
    with assms(1) show ?thesis by simp
  next
    case (SelectActiveToken tok)
    with assms(2) Healthy show ?thesis
      by (simp add: quota_invariant_def split: list.splits)
  next
    case (InsertAttempt a)
    with assms(2) Healthy show ?thesis
      by (simp add: quota_invariant_def)
  qed
qed (use assms(2) in simp_all)

lemma response_possible_exec:
  assumes "quota_invariant db"
  shows "response_possible (limits db) c (fst (exec c f db))"
proof (cases f)
  case Healthy
  show ?thesis
  proof (cases c)
    case (SelectActiveToken tok)
    show ?thesis
    proof (cases "filter (\<lambda>r. token r = tok \<and> is_active r) (secure_download_tokens db)")
      case Nil
      with Healthy SelectActiveToken show ?thesis by simp
    next
      case (Cons r rs)
      then have "r \<in> set (filter (\<lambda>r. token r = tok \<and> is_active r) (secure_download_tokens db))"
        by simp
      then have "r \<in> set (secure_download_tokens db)"
        by simp
      with assms have "(row_id r, max_downloads r) \<in> set (limits db)" and "0 \<le> download_count r"
        by (auto simp add: limits_def quota_invariant_def list_all_iff)
      with Healthy SelectActiveToken Cons show ?thesis
        by (cases rs) simp_all
    qed
  qed (use Healthy in simp_all)
next
  case ReportsError
  then show ?thesis by (cases c) simp_all
next
  case Raises
  then show ?thesis by (cases c) simp_all
qed

lemma safe_logDownloadAttempt:
  "safe M (logDownloadAttempt toLowerCase tokenId em s fr ip ua now k) = safe M k"
  by (auto simp add: logDownloadAttempt_def split: response.splits)

lemma safe_verifyDownloadToken:
  assumes "distinct (map fst M)"
  shows "safe M (verifyDownloadToken toLowerCase tok em ip ua now)"
proof -
  have within: "download_count t + 1 \<le> m"
    if "(row_id t, max_downloads t) \<in> set M" and "(row_id t, m) \<in> set M"
      and "download_count t < max_downloads t" for t :: joined_row and m
  proof -
    from assms that(1,2) have "max_downloads t = m"
      by (rule eq_key_imp_eq_value)
    with that(3) show ?thesis by simp
  qed
  have "safe M
     (case (if e then None else d) of
        None \<Rightarrow> k0
      | Some t \<Rightarrow> k1 t)" if "safe M k0"
      and "\<And>t. d = Some t \<Longrightarrow> \<not> e \<Longrightarrow> safe M (k1 t)" for e d k0 and k1 :: "joined_row \<Rightarrow> verify_result proc"
    using that by (cases e; cases d) simp_all
  show ?thesis
    unfolding verifyDownloadToken_def Let_def
    apply (simp add: safe_logDownloadAttempt)
    apply (intro allI impI)
    subgoal for rsp
      apply (cases rsp)
       apply (simp_all add: safe_logDownloadAttempt)
      subgoal for d e
        apply (cases e; cases d)
           apply (simp_all add: safe_logDownloadAttempt)
        apply (auto simp add: safe_logDownloadAttempt within split: response.splits)
        done
      done
    done
qed

lemma step_preserves:
  assumes "limits db = M" and "quota_invariant db" and "\<forall>p\<in>set ps. safe M p"
  shows "limits (fst (step e (db, ps))) = M \<and> quota_invariant (fst (step e (db, ps)))
       \<and> (\<forall>p\<in>set (snd (step e (db, ps))). safe M p)"
proof (cases e)
  case (Pair i f)
  show ?thesis
  proof (cases "i < length ps")
    case False
    with Pair assms show ?thesis by simp
  next
    case True
    show ?thesis
    proof (cases "ps ! i")
      case (Done r)
      with Pair True assms show ?thesis by simp
    next
      case (Await c k)
      from True assms(3) have "safe M (ps ! i)"
        by simp
      with Await have c: "call_safe M c"
        and k: "\<And>rsp. response_possible M c rsp \<Longrightarrow> safe M (k rsp)"
        by simp_all
      have "safe M (k (fst (exec c f db)))"
        using k response_possible_exec [OF assms(2), of c f] assms(1) by simp
      with assms(3) have "\<forall>p\<in>set (ps[i := k (fst (exec c f db))]). safe M p"
        by (auto dest: set_update_subset_insert [THEN subsetD])
      moreover have "limits (snd (exec c f db)) = M"
        using limits_exec [OF c] assms(1) by simp
      moreover have "quota_invariant (snd (exec c f db))"
        using quota_invariant_exec [of db c f] c assms(1,2) by simp
      ultimately show ?thesis
        using Pair True Await by (simp add: case_prod_beta)
    qed
  qed
qed

lemma interleave_preserves:
  assumes "limits (fst s) = M" and "quota_invariant (fst s)" and "\<forall>p\<in>set (snd s). safe M p"
  shows "quota_invariant (fst (interleave sched s))"
  using assms
proof (induction sched arbitrary: s)
  case Nil
  then show ?case by simp
next
  case (Cons e es)
  obtain db ps where s: "s = (db, ps)"
    by (cases s)
  from step_preserves [of db M ps e] Cons.prems s
  have "limits (fst (step e s)) = M" "quota_invariant (fst (step e s))"
    "\<forall>p\<in>set (snd (step e s)). safe M p"
    by simp_all
  then have "quota_invariant (fst (interleave es (step e s)))"
    by (rule Cons.IH)
  then show ?case by simp
qed

lemma run_preserves:
  assumes "limits db = M" and "quota_invariant db" and "safe M p"
  shows "quota_invariant (snd (run env p db)) \<and> limits (snd (run env p db)) = M"
  using assms
proof (induction p arbitrary: db)
  case (Done r)
  then show ?case by simp
next
  case (Await c k)
  from Await.prems(3) have c: "call_safe M c"
    and k: "\<And>rsp. response_possible M c rsp \<Longrightarrow> safe M (k rsp)"
    by simp_all
  have "safe M (k (fst (exec c (env c) db)))"
    using k response_possible_exec [OF Await.prems(2), of c "env c"] Await.prems(1) by simp
  moreover have "limits (snd (exec c (env c) db)) = M"
    using limits_exec [OF c] Await.prems(1) by simp
  moreover have "quota_invariant (snd (exec c (env c) db))"
    using quota_invariant_exec [of db c "env c"] c Await.prems(1,2) by simp
  ultimately have "quota_invariant
      (snd (run env (k (fst (exec c (env c) db))) (snd (exec c (env c) db))))
    \<and> limits (snd (run env (k (fst (exec c (env c) db))) (snd (exec c (env c) db)))) = M"
    by (intro Await.IH) simp_all
  then show ?case
    by (simp add: case_prod_beta)
qed

text \<open>
  Claim C1. Start from a datastore in which every token has
  \<open>0 \<le> download_count \<le> max_downloads\<close> and the ids of the rows are distinct. Then after
  any number of verification calls that run at the same time, their datastore requests
  interleaved in any order and ending in any way, every token still has
  \<open>0 \<le> download_count \<le> max_downloads\<close>; and so it has after a verification call that
  runs alone, which also leaves the ids as they were, hence after any sequence of such
  calls. The count a call writes is the count it read plus one, and the count it read was
  below the limit of that row.
\<close>

theorem quota_invariant_interleaved:
  assumes "quota_invariant db" and "distinct (map row_id (secure_download_tokens db))"
  shows "quota_invariant (fst (interleave sched (db, map (verification toLowerCase) reqs)))
       \<and> quota_invariant (snd (run env (verifyDownloadToken toLowerCase tok em ip ua now) db))
       \<and> distinct (map row_id (secure_download_tokens
            (snd (run env (verifyDownloadToken toLowerCase tok em ip ua now) db))))"
proof -
  let ?db' = "snd (run env (verifyDownloadToken toLowerCase tok em ip ua now) db)"
  have d: "distinct (map fst (limits db))"
    using assms(2) by (simp add: limits_def comp_def)
  then have "\<forall>p\<in>set (map (verification toLowerCase) reqs). safe (limits db) p"
    by (simp add: verification_def safe_verifyDownloadToken)
  with assms(1) have together: "quota_invariant (fst (interleave sched (db, map (verification toLowerCase) reqs)))"
    by (intro interleave_preserves [where M = "limits db"]) simp_all
  have alone: "quota_invariant ?db' \<and> limits ?db' = limits db"
    using assms(1) d by (intro run_preserves safe_verifyDownloadToken) simp_all
  then have "map fst (limits ?db') = map fst (limits db)"
    by simp
  then have "map row_id (secure_download_tokens ?db') = map row_id (secure_download_tokens db)"
    by (simp add: limits_def comp_def)
  with assms(2) together alone show ?thesis
    by simp
qed

text \<open>
  Two requests for the sample token, limit 1, both reading before either writes: both
  return success, and the count is 1.
\<close>

theorem quota_invariant_interleaved_witness:
  "quota_invariant
     (fst (interleave both_read_first (sample_db, map (verification ascii_toLowerCase) [sample_request, sample_request])))
   \<and> map download_count (secure_download_tokens
        (fst (interleave both_read_first (sample_db, map (verification ascii_toLowerCase) [sample_request, sample_request]))))
     = [1]
   \<and> map succeeded
        (snd (interleave both_read_first (sample_db, map (verification ascii_toLowerCase) [sample_request, sample_request])))
     = [True, True]"
proof -
  have "quota_invariant sample_db" and "distinct (map row_id (secure_download_tokens sample_db))"
    by (simp_all add: quota_invariant_def sample_db_def sample_row_def)
  then have "quota_invariant
     (fst (interleave both_read_first (sample_db, map (verification ascii_toLowerCase) [sample_request, sample_request])))"
    by (rule quota_invariant_interleaved [THEN conjunct1])
  moreover have "interleave both_read_first (sample_db, map (verification ascii_toLowerCase) [sample_request, sample_request])
      = (sample_db\<lparr>secure_download_tokens := [sample_row\<lparr>download_count := 1, updated_at := 5\<rparr>],
           download_attempts :=
             [entry ascii_toLowerCase (Some (js ''id1'')) (js ''user@example.com'') None None 5 None,
              entry ascii_toLowerCase (Some (js ''id1'')) (js ''user@example.com'') None None 5 None]\<rparr>,
         [Done \<lparr>valid = True, document = Some sample_doc, reason = None,
                tokenData = Some (join sample_db sample_row)\<rparr>,
          Done \<lparr>valid = True, document = Some sample_doc, reason = None,
                tokenData = Some (join sample_db sample_row)\<rparr>])"
    by (simp add: both_read_first_def verification_def sample_request_def verifyDownloadToken_def
          logDownloadAttempt_def Let_def entry_def sample_eval apply_patch_def)
  ultimately show ?thesis
    by (simp add: succeeded_def sample_row_def)
qed

end
